theory Spec2Isabelle
  imports Main "HOL-Library.Monad_Syntax"
begin

section \<open>Strings\<close>

text \<open>
  A JavaScript string is modelled as a \<^typ>\<open>string\<close>, one \<^typ>\<open>char\<close> per character.
  Case mapping acts on the ASCII letters and leaves every other character alone.
  The source file under \<^verbatim>\<open>src/lib/agent.ts\<close> is plain ASCII; its string literals are
  taken over character by character as they stand there.
\<close>

definition toLowerChar :: "char \<Rightarrow> char" where
  "toLowerChar c =
     (let n = (of_char c :: int) in if 65 \<le> n \<and> n \<le> 90 then char_of (n + 32) else c)"

definition toUpperChar :: "char \<Rightarrow> char" where
  "toUpperChar c =
     (let n = (of_char c :: int) in if 97 \<le> n \<and> n \<le> 122 then char_of (n - 32) else c)"

definition toLowerCase :: "string \<Rightarrow> string" where
  "toLowerCase s = map toLowerChar s"

definition toUpperCase :: "string \<Rightarrow> string" where
  "toUpperCase s = map toUpperChar s"

text \<open>\<^verbatim>\<open>s.charAt(0).toUpperCase() + s.slice(1)\<close>; on the empty string both parts are empty.\<close>

definition sentenceCase :: "string \<Rightarrow> string" where
  "sentenceCase s = toUpperCase (take 1 s) @ drop 1 s"

text \<open>\<^verbatim>\<open>Array.prototype.join\<close> on an array of strings.\<close>

fun join :: "string \<Rightarrow> string list \<Rightarrow> string" where
  "join sep [] = []"
| "join sep [x] = x"
| "join sep (x # y # ys) = x @ sep @ join sep (y # ys)"

text \<open>
  \<^verbatim>\<open>`${xs[i]}`\<close>: an index past the end reads \<^verbatim>\<open>undefined\<close>, which a template
  literal prints as the word.
\<close>

definition at_str :: "string list \<Rightarrow> nat \<Rightarrow> string" where
  "at_str xs i = (if i < length xs then xs ! i else ''undefined'')"

section \<open>Data model\<close>

record CampaignInput =
  goal :: string
  productName :: string
  productDescription :: string
  audience :: string
  tone :: string
  channels :: "string list"
  budget :: int
  startDate :: int
  durationDays :: int
  landingUrl :: "string option"

record ChannelPlan =
  objective :: string
  strategy :: string
  kpis :: "string list"

text \<open>
  \<open>channelsPlan\<close> is a JavaScript object used as a dictionary: an association list in
  insertion order, where a value \<open>None\<close> is a key that is present and holds
  \<^verbatim>\<open>undefined\<close>.
\<close>

record Strategy =
  primaryMessage :: string
  valueProps :: "string list"
  personaSummary :: string
  channelsPlan :: "(string \<times> ChannelPlan option) list"

record Email =
  subject :: string
  preview :: string
  body :: string

record Social =
  post_channel :: string
  post_text :: string

record Assets =
  headlines :: "string list"
  adCopy :: "string list"
  emails :: "Email list"
  social :: "Social list"

section \<open>Strategy builder\<close>

text \<open>
  The table \<^verbatim>\<open>base\<close> of \<^verbatim>\<open>buildStrategy\<close>; a tag outside the six reads \<^verbatim>\<open>undefined\<close>.
  (The names every JavaScript object inherits, such as \<^verbatim>\<open>constructor\<close>, are left out of the
  model; the properties below are about the six tags.)
\<close>

definition base :: "string \<Rightarrow> ChannelPlan option" where
  "base ch =
    (if ch = ''Website'' then Some \<lparr>objective = ''Convert qualified traffic'',
        strategy = ''Update hero, add social proof, launch comparison page'',
        kpis = [''Signup rate'', ''Bounce rate'']\<rparr>
     else if ch = ''Email'' then Some \<lparr>objective = ''Nurture and activate'',
        strategy = ''3-email sequence: insight, case study, offer'',
        kpis = [''Open rate'', ''CTR'', ''Activations'']\<rparr>
     else if ch = ''LinkedIn'' then Some \<lparr>objective = ''Educate and build trust'',
        strategy = ''Founder POV, carousel explainer, customer quote'',
        kpis = [''Impressions'', ''Engagement rate'']\<rparr>
     else if ch = ''X/Twitter'' then Some \<lparr>objective = ''Spark conversation'',
        strategy = ''Thread on problem framing + micro-demos'',
        kpis = [''Replies'', ''Profile visits'']\<rparr>
     else if ch = ''Instagram'' then Some \<lparr>objective = ''Show product visually'',
        strategy = ''Short reels of ?before/after? analytics moments'',
        kpis = [''Views'', ''Saves'']\<rparr>
     else if ch = ''Ads'' then Some \<lparr>objective = ''Capture demand'',
        strategy = ''Search on intent + retargeting with proof'',
        kpis = [''CPC'', ''CVR'']\<rparr>
     else None)"

text \<open>\<^verbatim>\<open>obj[k] = v\<close>: an existing key keeps its place and takes the new value, a new key goes last.\<close>

fun assign :: "'k \<Rightarrow> 'v \<Rightarrow> ('k \<times> 'v) list \<Rightarrow> ('k \<times> 'v) list" where
  "assign k v [] = [(k, v)]"
| "assign k v (p # ps) = (if fst p = k then (k, v) # ps else p # assign k v ps)"

definition the_valueProps :: "string list" where
  "the_valueProps =
    [''Set up in minutes, not weeks'',
     ''Privacy-first by design'',
     ''Crystal-clear funnels and cohort analysis'',
     ''Actionable AI insights, not vanity metrics'']"

definition buildStrategy :: "CampaignInput \<Rightarrow> Strategy" where
  "buildStrategy input =
    \<lparr>primaryMessage = productName input @ '': '' @ sentenceCase (tone input) @ '' solution to ''
        @ toLowerCase (goal input) @ '' for '' @ toLowerCase (audience input) @ ''.'',
     valueProps = the_valueProps,
     personaSummary = ''For '' @ audience input @ ''. They seek outcomes: ''
        @ sentenceCase (goal input)
        @ ''. They value credibility, proof, and time-to-value. Tone: '' @ tone input @ ''.'',
     channelsPlan = foldl (\<lambda>plan ch. assign ch (base ch) plan) [] (channels input)\<rparr>"

definition six_channels :: "string set" where
  "six_channels = {''Website'', ''Email'', ''LinkedIn'', ''X/Twitter'', ''Instagram'', ''Ads''}"

section \<open>Asset generator\<close>

definition bullets :: "string list \<Rightarrow> string" where
  "bullets strings = join ''\<newline>'' (map (\<lambda>s. ''? '' @ s) strings)"

definition email2_body :: string where
  "email2_body = ''Quick story: a SaaS team found a 24% activation lift after seeing a drop-off cohort at Day 2. They added an in-app nudge based on our insight.\<newline>\<newline>It took an afternoon. Results stuck.\<newline>\<newline>Curious what your data says? Happy to take a look and share a 1-pager.''"

definition buildAssets :: "CampaignInput \<Rightarrow> Strategy \<Rightarrow> Assets" where
  \<open>buildAssets input strat =
    (let brand = productName input;
         core = primaryMessage strat
     in \<lparr>headlines =
           [brand @ '' ? '' @ sentenceCase (goal input),
            ''From guesswork to growth with '' @ brand,
            brand @ '': analytics that turns insight into action''],
         adCopy =
           [brand @ '' helps '' @ toLowerCase (audience input) @ '' '' @ toLowerCase (goal input)
              @ ''. '' @ at_str (valueProps strat) 2 @ ''. Start in minutes.'',
            ''Stop drowning in dashboards. '' @ brand @ '' surfaces what moves the needle. ''
              @ at_str (valueProps strat) 3 @ ''.''],
         emails =
           [\<lparr>subject = brand @ '' in 3 minutes: see what matters'',
             preview = ''A quick walkthrough and a real case study'',
             body = ''Hi there,\<newline>\<newline>If analytics feels noisy, you're not alone. '' @ brand
               @ '' focuses on outcomes.\<newline>\<newline>Why teams switch:\<newline>''
               @ bullets (valueProps strat)
               @ ''\<newline>\<newline>Want a 3-minute walkthrough? Reply with "demo" and I?ll share a short video.\<newline>\<newline>Best,\<newline>''
               @ brand @ '' Team''\<rparr>,
            \<lparr>subject = ''How '' @ brand @ '' users improved activation by 24%'',
             preview = ''A simple cohort insight changed their onboarding'',
             body = email2_body\<rparr>],
         social =
           (if ''LinkedIn'' \<in> set (channels input)
            then [\<lparr>post_channel = ''LinkedIn'',
                   post_text = ''Most analytics tools show everything. '' @ brand
                     @ '' shows what matters. '' @ at_str (valueProps strat) 3 @ ''. ''
                     @ primaryMessage strat\<rparr>] else [])
           @ (if ''X/Twitter'' \<in> set (channels input)
            then [\<lparr>post_channel = ''X/Twitter'',
                   post_text = ''Funnels, cohorts, activation. Keep it simple. '' @ brand
                     @ '' ? outcomes > dashboards. #saas #growth''\<rparr>] else [])
           @ (if ''Instagram'' \<in> set (channels input)
            then [\<lparr>post_channel = ''Instagram'',
                   post_text = ''Before ? drowning in charts. After ? one insight, one action. ''
                     @ brand @ ''.''\<rparr>] else [])\<rparr>)\<close>

section \<open>Dates\<close>

text \<open>
  A \<^verbatim>\<open>Dayjs\<close> value is modelled by the instant it holds: a number of milliseconds since
  1970-01-01T00:00:00Z. The local time zone of the process is taken to be UTC. The
  functions below follow the definitions of the ECMAScript \<^verbatim>\<open>Date\<close> object
  (day number, year from day, month table) and of the dayjs methods the source calls.
  A time value is valid up to 100 000 000 days on either side of the epoch; beyond that
  \<^verbatim>\<open>toISOString\<close> raises \<^verbatim>\<open>RangeError\<close>.
\<close>

definition msPerDay :: int where "msPerDay = 86400000"
definition maxTime :: int where "maxTime = 8640000000000000"

definition validTime :: "int \<Rightarrow> bool" where
  "validTime t = (- maxTime \<le> t \<and> t \<le> maxTime)"

definition DayFromYear :: "int \<Rightarrow> int" where
  "DayFromYear y = 365 * (y - 1970) + (y - 1969) div 4 - (y - 1901) div 100 + (y - 1601) div 400"

definition InLeapYear :: "int \<Rightarrow> int" where
  "InLeapYear y = (if y mod 4 = 0 \<and> (y mod 100 \<noteq> 0 \<or> y mod 400 = 0) then 1 else 0)"

definition YearFromDay :: "int \<Rightarrow> int" where
  "YearFromDay d =
     (let y0 = 1970 + (400 * d) div 146097
      in if d < DayFromYear y0 then y0 - 1
         else if DayFromYear (y0 + 1) \<le> d then y0 + 1
         else y0)"

definition MonthFromDay :: "int \<Rightarrow> int \<Rightarrow> int" where
  "MonthFromDay diy L =
     (if diy < 31 then 0 else if diy < 59 + L then 1 else if diy < 90 + L then 2
      else if diy < 120 + L then 3 else if diy < 151 + L then 4 else if diy < 181 + L then 5
      else if diy < 212 + L then 6 else if diy < 243 + L then 7 else if diy < 273 + L then 8
      else if diy < 304 + L then 9 else if diy < 334 + L then 10 else 11)"

definition monthStart :: "int \<Rightarrow> int \<Rightarrow> int" where
  "monthStart m L =
     (if m = 0 then 0 else if m = 1 then 31 else if m = 2 then 59 + L
      else if m = 3 then 90 + L else if m = 4 then 120 + L else if m = 5 then 151 + L
      else if m = 6 then 181 + L else if m = 7 then 212 + L else if m = 8 then 243 + L
      else if m = 9 then 273 + L else if m = 10 then 304 + L else 334 + L)"

definition daysInMonth :: "int \<Rightarrow> int \<Rightarrow> int" where
  "daysInMonth m L =
     (if m = 1 then 28 + L else if m = 3 \<or> m = 5 \<or> m = 8 \<or> m = 10 then 30 else 31)"

text \<open>A decimal digit as a character (\<^verbatim>\<open>0\<close> is character 48), and back.\<close>

definition digit :: "int \<Rightarrow> char" where
  "digit n = char_of (48 + n)"

definition digit_val :: "char \<Rightarrow> int option" where
  "digit_val c =
     (let k = (of_char c :: int) in if 48 \<le> k \<and> k \<le> 57 then Some (k - 48) else None)"

fun digits :: "nat \<Rightarrow> int \<Rightarrow> string" where
  "digits 0 n = []"
| "digits (Suc k) n = digits k (n div 10) @ [digit (n mod 10)]"

fun number_from :: "int \<Rightarrow> string \<Rightarrow> int option" where
  "number_from acc [] = Some acc"
| "number_from acc (c # cs) =
     (case digit_val c of None \<Rightarrow> None | Some d \<Rightarrow> number_from (10 * acc + d) cs)"

definition eatDigits :: "nat \<Rightarrow> string \<Rightarrow> (int \<times> string) option" where
  "eatDigits k s =
     (if length s < k then None
      else case number_from 0 (take k s) of None \<Rightarrow> None | Some v \<Rightarrow> Some (v, drop k s))"

definition eatChar :: "char \<Rightarrow> string \<Rightarrow> string option" where
  "eatChar c s = (case s of [] \<Rightarrow> None | x # xs \<Rightarrow> if x = c then Some xs else None)"

definition eatYear :: "string \<Rightarrow> (int \<times> string) option" where
  "eatYear s =
     (case s of
        [] \<Rightarrow> None
      | c # cs \<Rightarrow>
          if c = CHR ''+'' then eatDigits 6 cs
          else if c = CHR ''-'' then
            (case eatDigits 6 cs of
               None \<Rightarrow> None
             | Some (v, r) \<Rightarrow> if v = 0 then None else Some (- v, r))
          else eatDigits 4 s)"

text \<open>
  \<open>fromISOString\<close> reads a text in one of the two layouts that \<^verbatim>\<open>toISOString\<close> writes
  (\<^verbatim>\<open>YYYY-MM-DDTHH:mm:ss.sssZ\<close> and the same with a signed six-digit year) whose fields
  are all in range; it gives \<open>None\<close> for every other text. Such a text ends in \<^verbatim>\<open>Z\<close>, so
  \<^verbatim>\<open>dayjs\<close> hands it to the \<^verbatim>\<open>Date\<close> parser, and it is in the date-time format of
  ECMAScript, for which the standard fixes the result.
\<close>

definition makeTime :: "int \<Rightarrow> int \<Rightarrow> int \<Rightarrow> int \<Rightarrow> int \<Rightarrow> int \<Rightarrow> int \<Rightarrow> int option" where
  "makeTime y m d h mi s f =
     (if 1 \<le> m \<and> m \<le> 12 \<and> 1 \<le> d \<and> d \<le> daysInMonth (m - 1) (InLeapYear y)
         \<and> (h \<le> 23 \<or> (h = 24 \<and> mi = 0 \<and> s = 0 \<and> f = 0)) \<and> mi \<le> 59 \<and> s \<le> 59
      then (let t = (DayFromYear y + monthStart (m - 1) (InLeapYear y) + d - 1) * msPerDay
                    + h * 3600000 + mi * 60000 + s * 1000 + f
            in if validTime t then Some t else None)
      else None)"

definition fromISOString :: "string \<Rightarrow> int option" where
  "fromISOString s0 = do {
     (y, s1) \<leftarrow> eatYear s0;
     s2 \<leftarrow> eatChar (CHR ''-'') s1;
     (m, s3) \<leftarrow> eatDigits 2 s2;
     s4 \<leftarrow> eatChar (CHR ''-'') s3;
     (d, s5) \<leftarrow> eatDigits 2 s4;
     s6 \<leftarrow> eatChar (CHR ''T'') s5;
     (h, s7) \<leftarrow> eatDigits 2 s6;
     s8 \<leftarrow> eatChar (CHR '':'') s7;
     (mi, s9) \<leftarrow> eatDigits 2 s8;
     s10 \<leftarrow> eatChar (CHR '':'') s9;
     (sec, s11) \<leftarrow> eatDigits 2 s10;
     s12 \<leftarrow> eatChar (CHR ''.'') s11;
     (f, s13) \<leftarrow> eatDigits 3 s12;
     s14 \<leftarrow> eatChar (CHR ''Z'') s13;
     if s14 = [] then makeTime y m d h mi sec f else None
   }"

text \<open>
  \<^verbatim>\<open>dayjs(s)\<close> for a text \<open>s\<close>; \<open>None\<close> is the invalid date. What \<^verbatim>\<open>dayjs\<close> makes of a text
  that \<open>fromISOString\<close> does not read (a shorter layout such as \<^verbatim>\<open>2024-01-01\<close>, a text
  without \<^verbatim>\<open>Z\<close> that the pattern of \<^verbatim>\<open>dayjs\<close> itself matches, a field out of range such as
  30 February, which some engines roll over and others refuse, or any text left to the
  engine's own heuristics) depends on the version of \<^verbatim>\<open>dayjs\<close> and on the engine. The
  model does not fix it: it is the parameter \<open>other\<close>, and every property below holds for
  every \<open>other\<close>.
\<close>

definition dayjs :: "(string \<Rightarrow> int option) \<Rightarrow> string \<Rightarrow> int option" where
  "dayjs other s = (case fromISOString s of Some t \<Rightarrow> Some t | None \<Rightarrow> other s)"

text \<open>\<^verbatim>\<open>Date.prototype.toISOString\<close>; \<open>None\<close> is the \<^verbatim>\<open>RangeError\<close> of an invalid time value.\<close>

definition isoYear :: "int \<Rightarrow> string" where
  "isoYear y =
     (if 0 \<le> y \<and> y \<le> 9999 then digits 4 y
      else (if y < 0 then ''-'' else ''+'') @ digits 6 \<bar>y\<bar>)"

definition isoText :: "int \<Rightarrow> string" where
  "isoText t =
     (let day = t div msPerDay; ms = t mod msPerDay;
          y = YearFromDay day; L = InLeapYear y;
          diy = day - DayFromYear y;
          m = MonthFromDay diy L;
          dom = diy - monthStart m L + 1
      in isoYear y @ ''-'' @ digits 2 (m + 1) @ ''-'' @ digits 2 dom @ ''T''
         @ digits 2 (ms div 3600000) @ '':'' @ digits 2 (ms div 60000 mod 60) @ '':''
         @ digits 2 (ms div 1000 mod 60) @ ''.'' @ digits 3 (ms mod 1000) @ ''Z'')"

definition toISOString :: "int \<Rightarrow> string option" where
  "toISOString t = (if validTime t then Some (isoText t) else None)"

text \<open>\<^verbatim>\<open>startOf('day')\<close>, \<^verbatim>\<open>add(n, 'day')\<close> and \<^verbatim>\<open>diff(that, 'day')\<close>, which truncates towards zero.\<close>

definition startOf_day :: "int \<Rightarrow> int" where
  "startOf_day t = t - t mod msPerDay"

definition add_day :: "int \<Rightarrow> int \<Rightarrow> int" where
  "add_day t n = t + n * msPerDay"

definition diff_day :: "int \<Rightarrow> int \<Rightarrow> int" where
  "diff_day a b = (let d = a - b in if d < 0 then - ((- d) div msPerDay) else d div msPerDay)"

text \<open>\<^verbatim>\<open>add(1, 'hour')\<close> on a parsed date; a result out of range is the invalid date.\<close>

definition add_hour :: "int option \<Rightarrow> int option" where
  "add_hour dt =
     (case dt of None \<Rightarrow> None
      | Some t \<Rightarrow> if validTime (t + 3600000) then Some (t + 3600000) else None)"

text \<open>Decimal text of a number, as a template literal prints it, and \<^verbatim>\<open>padStart\<close>.\<close>

function showPos :: "int \<Rightarrow> string" where
  "showPos i = (if i < 10 then [digit i] else showPos (i div 10) @ [digit (i mod 10)])"
  by pat_completeness auto
termination
  by (relation "measure nat") auto

declare showPos.simps [simp del]

definition showNat :: "nat \<Rightarrow> string" where
  "showNat n = showPos (int n)"

definition showInt :: "int \<Rightarrow> string" where
  "showInt i = (if i < 0 then ''-'' @ showPos (- i) else showPos i)"

definition padStart :: "nat \<Rightarrow> char \<Rightarrow> string \<Rightarrow> string" where
  "padStart n c s = replicate (n - length s) c @ s"

text \<open>
  \<^verbatim>\<open>format('YYYYMMDD[T]HHmmss[Z]')\<close> of a date, the zone being UTC; an invalid date prints
  as \<^verbatim>\<open>Invalid Date\<close>.
\<close>

definition format_ics :: "int option \<Rightarrow> string" where
  "format_ics dt =
     (case dt of
        None \<Rightarrow> ''Invalid Date''
      | Some t \<Rightarrow>
         (let day = t div msPerDay; ms = t mod msPerDay;
              y = YearFromDay day; L = InLeapYear y;
              diy = day - DayFromYear y;
              m = MonthFromDay diy L;
              dom = diy - monthStart m L + 1
          in padStart 4 (CHR ''0'') (showInt y) @ digits 2 (m + 1) @ digits 2 dom @ ''T''
             @ digits 2 (ms div 3600000) @ digits 2 (ms div 60000 mod 60)
             @ digits 2 (ms div 1000 mod 60) @ ''Z''))"

section \<open>Calendar scheduler\<close>

record CalendarEvent =
  date :: string
  channel :: string
  title :: string
  "notes" :: string

datatype error = RangeError | TypeError

text \<open>
  \<^verbatim>\<open>s.toLowerCase().replace(/[^a-z0-9]+/g, '-').replace(/(^-|-$)/g, '').slice(0, 60)\<close>.
  In \<open>dashRuns\<close> the flag says that the characters just read were already replaced by a
  hyphen.
\<close>

definition isSlugChar :: "char \<Rightarrow> bool" where
  "isSlugChar c =
     (let n = (of_char c :: int) in (97 \<le> n \<and> n \<le> 122) \<or> (48 \<le> n \<and> n \<le> 57))"

fun dashRuns :: "bool \<Rightarrow> string \<Rightarrow> string" where
  "dashRuns r [] = []"
| "dashRuns r (c # cs) =
     (if isSlugChar c then c # dashRuns False cs
      else if r then dashRuns True cs
      else CHR ''-'' # dashRuns True cs)"

definition stripDashes :: "string \<Rightarrow> string" where
  "stripDashes s =
     (let s1 = (case s of [] \<Rightarrow> [] | c # cs \<Rightarrow> if c = CHR ''-'' then cs else s)
      in if s1 \<noteq> [] \<and> last s1 = CHR ''-'' then butlast s1 else s1)"

definition slugify :: "string \<Rightarrow> string" where
  "slugify s = take 60 (stripDashes (dashRuns False (toLowerCase s)))"

text \<open>
  The platform's \<^verbatim>\<open>URL\<close> class is a parameter of the model: \<open>new_URL\<close> parses a text
  (\<open>None\<close> is the \<^verbatim>\<open>TypeError\<close> of an invalid URL), \<open>searchParams_set\<close> sets a query
  parameter and \<open>url_toString\<close> serialises.
\<close>

record 'u URL_class =
  new_URL :: "string \<Rightarrow> 'u option"
  searchParams_set :: "'u \<Rightarrow> string \<Rightarrow> string \<Rightarrow> 'u"
  url_toString :: "'u \<Rightarrow> string"

record UtmParams =
  source :: string
  medium :: string
  campaign :: string
  content :: "string option"

text \<open>A string used as a condition is true when it is there and not empty.\<close>

definition truthy :: "string option \<Rightarrow> bool" where
  "truthy s = (case s of None \<Rightarrow> False | Some v \<Rightarrow> v \<noteq> [])"

definition buildUtmUrl :: "'u URL_class \<Rightarrow> string \<Rightarrow> UtmParams \<Rightarrow> string" where
  "buildUtmUrl URL baseUrl params =
     (case new_URL URL baseUrl of
        None \<Rightarrow> baseUrl
      | Some u \<Rightarrow>
         (let u1 = searchParams_set URL u ''utm_source'' (source params);
              u2 = searchParams_set URL u1 ''utm_medium'' (medium params);
              u3 = searchParams_set URL u2 ''utm_campaign'' (campaign params);
              u4 = (if truthy (content params)
                    then searchParams_set URL u3 ''utm_content'' (the (content params)) else u3)
          in url_toString URL u4))"

text \<open>\<^verbatim>\<open>s.match(/pat/i)\<close> for a pattern of plain letters: \<open>pat\<close>, in lower case, occurs in \<open>s\<close>.\<close>

fun occursIn :: "string \<Rightarrow> string \<Rightarrow> bool" where
  "occursIn pat [] = (pat = [])"
| "occursIn pat (c # cs) = (take (length pat) (c # cs) = pat \<or> occursIn pat cs)"

definition matches_i :: "string \<Rightarrow> string \<Rightarrow> bool" where
  "matches_i pat s = occursIn pat (toLowerCase s)"

definition mediumOf :: "string \<Rightarrow> string" where
  "mediumOf ch =
     (if matches_i ''email'' ch then ''email''
      else if matches_i ''ads'' ch then ''cpc'' else ''social'')"

text \<open>
  The closure \<^verbatim>\<open>push\<close> of \<^verbatim>\<open>buildCalendar\<close>: \<open>fullNotes\<close> is its local variable of
  that name, and \<open>push\<close> returns the event it appends to \<^verbatim>\<open>events\<close>, or the error that
  \<^verbatim>\<open>toISOString\<close> raises.
\<close>

definition fullNotes :: "'u URL_class \<Rightarrow> CampaignInput \<Rightarrow> string \<Rightarrow> string \<Rightarrow> string \<Rightarrow> string" where
  "fullNotes URL input ch ti no =
     (if truthy (landingUrl input) \<and> ch \<noteq> ''Website''
      then (let link = buildUtmUrl URL (the (landingUrl input))
                     \<lparr>source = toLowerCase ch, medium = mediumOf ch,
                      campaign = slugify (goal input), content = Some (slugify ti)\<rparr>
            in no @ ''\<newline>Link: '' @ link)
      else no)"

definition push ::
  "'u URL_class \<Rightarrow> CampaignInput \<Rightarrow> int \<Rightarrow> int \<Rightarrow> string \<Rightarrow> string \<Rightarrow> string
     \<Rightarrow> error + CalendarEvent" where
  "push URL input start offset ch ti no =
     (case toISOString (add_day start offset) of
        None \<Rightarrow> Inl RangeError
      | Some d \<Rightarrow> Inr \<lparr>date = d, channel = ch, title = ti, notes = fullNotes URL input ch ti no\<rparr>)"

text \<open>The loop over \<^verbatim>\<open>assets.social\<close> with its counter \<^verbatim>\<open>day\<close>.\<close>

fun spread ::
  "'u URL_class \<Rightarrow> CampaignInput \<Rightarrow> int \<Rightarrow> int \<Rightarrow> Social list \<Rightarrow> (error + CalendarEvent) list" where
  "spread URL input start day [] = []"
| "spread URL input start day (p # ps) =
     push URL input start day (post_channel p) ''Social post'' (post_text p)
       # spread URL input start (day + 2) ps"

text \<open>
  \<^verbatim>\<open>assets.emails[i].subject\<close> raises \<^verbatim>\<open>TypeError\<close> when the array has no entry \<open>i\<close>.
\<close>

definition emailPush ::
  "'u URL_class \<Rightarrow> CampaignInput \<Rightarrow> int \<Rightarrow> int \<Rightarrow> Email list \<Rightarrow> nat \<Rightarrow> error + CalendarEvent" where
  "emailPush URL input start offset es i =
     (if i < length es then push URL input start offset ''Email'' (subject (es ! i)) (preview (es ! i))
      else Inl TypeError)"

text \<open>Statements run in order; the first error ends the run.\<close>

fun inOrder :: "(error + 'a) list \<Rightarrow> error + 'a list" where
  "inOrder [] = Inr []"
| "inOrder (r # rs) =
     (case r of Inl e \<Rightarrow> Inl e
      | Inr x \<Rightarrow> (case inOrder rs of Inl e \<Rightarrow> Inl e | Inr xs \<Rightarrow> Inr (x # xs)))"

text \<open>The filter's test; comparing the \<^verbatim>\<open>NaN\<close> of an invalid date is false.\<close>

definition withinDuration ::
  "(string \<Rightarrow> int option) \<Rightarrow> int \<Rightarrow> int \<Rightarrow> CalendarEvent \<Rightarrow> bool" where
  "withinDuration other start days ev =
     (case dayjs other (date ev) of None \<Rightarrow> False | Some t \<Rightarrow> diff_day t start \<le> days)"

definition buildCalendar ::
  "'u URL_class \<Rightarrow> (string \<Rightarrow> int option) \<Rightarrow> CampaignInput \<Rightarrow> Strategy \<Rightarrow> Assets
     \<Rightarrow> error + CalendarEvent list" where
  "buildCalendar URL other input strat assets =
     (let start = startOf_day (startDate input);
          days = durationDays input
      in case inOrder
           ([push URL input start 0 ''Website'' ''Hero + proof update'' ''Add headline and 3 logos'']
            @ spread URL input start 1 (social assets)
            @ (if ''Email'' \<in> set (channels input)
               then [emailPush URL input start 2 (emails assets) 0,
                     emailPush URL input start 9 (emails assets) 1]
               else [])
            @ (if ''Ads'' \<in> set (channels input)
               then [push URL input start 1 ''Ads'' ''Launch search + retargeting''
                       ''Focus on high-intent terms'']
               else [])
            @ [push URL input start 7 ''LinkedIn'' ''Carousel: what we learned''
                 ''Founder POV, 5 slides''])
         of Inl e \<Rightarrow> Inl e
          | Inr events \<Rightarrow> Inr (filter (withinDuration other start days) events))"

section \<open>Export serializer\<close>

definition csvEscape :: "string \<Rightarrow> string" where
  \<open>csvEscape v =
     (if CHR ''"'' \<in> set v \<or> CHR '','' \<in> set v \<or> CHR ''\<newline>'' \<in> set v
      then ''"'' @ concat (map (\<lambda>c. if c = CHR ''"'' then ''""'' else [c]) v) @ ''"''
      else v)\<close>

text \<open>The loop of \<^verbatim>\<open>toCalendarCsv\<close>, appending one line per event to \<^verbatim>\<open>lines\<close>.\<close>

fun csvLines :: "CalendarEvent list \<Rightarrow> string list \<Rightarrow> string list" where
  "csvLines [] lines = lines"
| "csvLines (ev # evs) lines =
     csvLines evs
       (lines @ [join '','' (map csvEscape [date ev, channel ev, title ev, notes ev])])"

definition toCalendarCsv :: "CalendarEvent list \<Rightarrow> string" where
  "toCalendarCsv events =
     join ''\<newline>'' (csvLines events [join '','' [''date'', ''channel'', ''title'', ''notes'']])"

text \<open>
  \<^verbatim>\<open>dayjs(ev.date).utc()\<close>. The object that \<^verbatim>\<open>dayjs(...)\<close> returns has a method \<^verbatim>\<open>utc\<close> only
  once the UTC plugin of \<^verbatim>\<open>dayjs\<close> is registered with \<^verbatim>\<open>dayjs.extend\<close>. No file of the
  repository imports that plugin or calls \<^verbatim>\<open>dayjs.extend\<close> (\<^verbatim>\<open>agent.ts\<close> imports \<^verbatim>\<open>dayjs\<close> and
  the type \<^verbatim>\<open>Dayjs\<close>, nothing else of the library), so the call is a call of
  \<^verbatim>\<open>undefined\<close> and raises \<^verbatim>\<open>TypeError\<close>, whatever the date.
\<close>

definition utc :: "int option \<Rightarrow> error + int option" where
  "utc dt = Inl TypeError"

text \<open>
  The loop of \<^verbatim>\<open>buildIcs\<close>, with the index \<^verbatim>\<open>idx\<close> that \<^verbatim>\<open>forEach\<close> passes. An error raised
  in the callback ends the loop and the function.
\<close>

fun icsLines ::
  "(string \<Rightarrow> int option) \<Rightarrow> nat \<Rightarrow> CalendarEvent list \<Rightarrow> string list \<Rightarrow> error + string list" where
  "icsLines other idx [] lines = Inr lines"
| "icsLines other idx (ev # evs) lines =
     (case utc (dayjs other (date ev)) of
        Inl e \<Rightarrow> Inl e
      | Inr dt \<Rightarrow>
          (let dtStart = format_ics dt;
               dtEnd = format_ics (add_hour dt)
           in icsLines other (Suc idx) evs
                (lines @
                 [''BEGIN:VEVENT'',
                  ''UID:'' @ showNat idx @ ''-'' @ dtStart @ ''@campaign-agent'',
                  ''DTSTAMP:'' @ dtStart,
                  ''DTSTART:'' @ dtStart,
                  ''DTEND:'' @ dtEnd,
                  ''SUMMARY:'' @ channel ev @ '': '' @ title ev,
                  ''DESCRIPTION:''
                    @ map (\<lambda>c. if c = CHR ''\<newline>'' then CHR '' '' else c) (notes ev),
                  ''END:VEVENT''])))"

definition buildIcs :: "(string \<Rightarrow> int option) \<Rightarrow> CalendarEvent list \<Rightarrow> error + string" where
  "buildIcs other events =
     (case icsLines other 0 events
             [''BEGIN:VCALENDAR'', ''VERSION:2.0'', ''PRODID:-//Campaign Agent//EN'']
      of Inl e \<Rightarrow> Inl e
       | Inr lines \<Rightarrow> Inr (join ''\<newline>'' (lines @ [''END:VCALENDAR''])))"

section \<open>An example campaign\<close>

text \<open>
  The end-to-end scenario of the specification, with the form's default texts for the
  fields the scenario leaves open. The start date 2024-01-01 is 1704067200000 ms.
\<close>

definition example_input :: CampaignInput where
  "example_input =
     \<lparr>goal = ''Increase signups by 30% in 30 days'',
      productName = ''Acme Analytics'',
      productDescription = ''A privacy-first analytics platform for SaaS with funnels, cohorts, and AI insights.'',
      audience = ''SaaS founders and growth teams at early to mid-stage startups'',
      tone = ''Confident, clear, value-oriented'',
      channels = [''Website'', ''Email''],
      budget = 5000,
      startDate = 1704067200000,
      durationDays = 14,
      landingUrl = Some ''''\<rparr>"

section \<open>The schedule in the words of the specification\<close>

text \<open>
  The schedule as section 4.3 of the specification words it: the entries in generation
  order, each with its day offset, channel, title and notes before any link is appended.
\<close>

definition scheduled :: "CampaignInput \<Rightarrow> Assets \<Rightarrow> (int \<times> string \<times> string \<times> string) list" where
  "scheduled input assets =
     [(0, ''Website'', ''Hero + proof update'', ''Add headline and 3 logos'')]
     @ map (\<lambda>(i, p). (1 + 2 * int i, post_channel p, ''Social post'', post_text p))
         (enumerate 0 (social assets))
     @ (if ''Email'' \<in> set (channels input)
        then [(2, ''Email'', subject (emails assets ! 0), preview (emails assets ! 0)),
              (9, ''Email'', subject (emails assets ! 1), preview (emails assets ! 1))]
        else [])
     @ (if ''Ads'' \<in> set (channels input)
        then [(1, ''Ads'', ''Launch search + retargeting'', ''Focus on high-intent terms'')]
        else [])
     @ [(7, ''LinkedIn'', ''Carousel: what we learned'', ''Founder POV, 5 slides'')]"

text \<open>The event of a schedule entry: dated that many days after the start of the start day.\<close>

definition eventAt ::
  "'u URL_class \<Rightarrow> CampaignInput \<Rightarrow> int \<times> string \<times> string \<times> string \<Rightarrow> CalendarEvent" where
  "eventAt URL input e =
     (case e of (off, ch, ti, no) \<Rightarrow>
        \<lparr>date = isoText (add_day (startOf_day (startDate input)) off),
         channel = ch, title = ti, notes = fullNotes URL input ch ti no\<rparr>)"

text \<open>
  Inputs on which \<open>buildCalendar\<close> raises no error: the start date is a valid time, every
  scheduled day is one too, and two emails are there when the Email channel is requested.
\<close>

definition calendar_ok :: "CampaignInput \<Rightarrow> Assets \<Rightarrow> bool" where
  "calendar_ok input assets =
     (validTime (startDate input)
      \<and> add_day (startOf_day (startDate input)) (9 + 2 * int (length (social assets))) \<le> maxTime
      \<and> (''Email'' \<in> set (channels input) \<longrightarrow> 2 \<le> length (emails assets)))"

text \<open>
  The link of an event as the specification words it, with the one amendment that the
  parameter \<^verbatim>\<open>utm_content\<close> is set only when the slug of the title is not empty.
\<close>

definition utmUrl :: "'u URL_class \<Rightarrow> string \<Rightarrow> string \<Rightarrow> string \<Rightarrow> string \<Rightarrow> string" where
  "utmUrl URL l g ch ti =
     (case new_URL URL l of
        None \<Rightarrow> l
      | Some u \<Rightarrow>
          (let u3 = searchParams_set URL
                      (searchParams_set URL
                         (searchParams_set URL u ''utm_source'' (toLowerCase ch))
                         ''utm_medium''
                         (if matches_i ''email'' ch then ''email''
                          else if matches_i ''ads'' ch then ''cpc'' else ''social''))
                      ''utm_campaign'' (slugify g)
           in url_toString URL
                (if slugify ti = [] then u3
                 else searchParams_set URL u3 ''utm_content'' (slugify ti))))"

section \<open>Example inputs\<close>

text \<open>
  A small URL class to run the model on examples: it accepts a text that starts with
  \<^verbatim>\<open>http://\<close> or \<^verbatim>\<open>https://\<close>, keeps it whole, and writes the parameters that were set
  after a question mark. It stands for the platform's class in the examples only.
\<close>

definition plain_URL :: "(string \<times> (string \<times> string) list) URL_class" where
  "plain_URL =
     \<lparr>new_URL = (\<lambda>s. if take 7 s = ''http://'' \<or> take 8 s = ''https://'' then Some (s, []) else None),
      searchParams_set = (\<lambda>u k v. (fst u, assign k v (snd u))),
      url_toString = (\<lambda>u. fst u @ (if snd u = [] then [] else
         ''?'' @ join ''&'' (map (\<lambda>(k, v). k @ ''='' @ v) (snd u))))\<rparr>"

text \<open>
  To run the examples, the texts that \<open>fromISOString\<close> does not read are taken as invalid
  dates. No example reads such a text.
\<close>

definition none_other :: "string \<Rightarrow> int option" where
  "none_other s = None"


text \<open>A week-long campaign with no channel requested.\<close>

definition short_input :: CampaignInput where
  "short_input = example_input\<lparr>channels := [], durationDays := 7\<rparr>"

text \<open>The example campaign with a landing page, and assets whose email subjects have no letters or digits.\<close>

definition linked_input :: CampaignInput where
  "linked_input = example_input\<lparr>landingUrl := Some ''https://acme.test/''\<rparr>"

definition blank_assets :: Assets where
  "blank_assets =
     \<lparr>headlines = [], adCopy = [],
      emails = [\<lparr>subject = ''!!!'', preview = ''First'', body = ''''\<rparr>,
                \<lparr>subject = ''???'', preview = ''Second'', body = ''''\<rparr>],
      social = []\<rparr>"

section \<open>The exports in the words of the specification\<close>

text \<open>The row of an event in the CSV text.\<close>

definition csvRow :: "CalendarEvent \<Rightarrow> string" where
  "csvRow ev =
     csvEscape (date ev) @ '','' @ csvEscape (channel ev) @ '','' @ csvEscape (title ev)
       @ '','' @ csvEscape (notes ev)"

text \<open>\<^verbatim>\<open>text.split('\n')\<close>: the lines of a text.\<close>

fun splitLines :: "string \<Rightarrow> string list" where
  "splitLines [] = [[]]"
| "splitLines (c # cs) =
     (if c = CHR ''\<newline>'' then [] # splitLines cs
      else (case splitLines cs of [] \<Rightarrow> [[c]] | l # ls \<Rightarrow> (c # l) # ls))"

text \<open>The calendar of the example campaign.\<close>

definition example_events :: "CalendarEvent list" where
  "example_events =
     [\<lparr>date = ''2024-01-01T00:00:00.000Z'', channel = ''Website'',
        title = ''Hero + proof update'', notes = ''Add headline and 3 logos''\<rparr>,
      \<lparr>date = ''2024-01-03T00:00:00.000Z'', channel = ''Email'',
        title = ''Acme Analytics in 3 minutes: see what matters'',
        notes = ''A quick walkthrough and a real case study''\<rparr>,
      \<lparr>date = ''2024-01-10T00:00:00.000Z'', channel = ''Email'',
        title = ''How Acme Analytics users improved activation by 24%'',
        notes = ''A simple cohort insight changed their onboarding''\<rparr>,
      \<lparr>date = ''2024-01-08T00:00:00.000Z'', channel = ''LinkedIn'',
        title = ''Carousel: what we learned'', notes = ''Founder POV, 5 slides''\<rparr>]"

section \<open>Properties\<close>

subsection \<open>Dates: parsing what toISOString writes\<close>

lemma div_lo: "0 < k \<Longrightarrow> k * (x div k) \<le> (x::int)"
  using mult_div_mod_eq[of k x] pos_mod_sign[of k x] by linarith

lemma div_hi: "0 < k \<Longrightarrow> (x::int) < k * (x div k) + k"
  using mult_div_mod_eq[of k x] pos_mod_bound[of k x] by linarith

lemma div_step:
  fixes x k :: int
  assumes "0 < k"
  shows "(x + 1) div k = x div k + (if k dvd (x + 1) then 1 else 0)"
proof (cases "x mod k + 1 = k")
  case True
  have "x + 1 = k * (x div k) + k"
    using mult_div_mod_eq[of k x] True by linarith
  then have "x + 1 = k * (x div k + 1) + 0"
    by (simp add: algebra_simps)
  then have "(x + 1) div k = x div k + 1" and "(x + 1) mod k = 0"
    using assms int_div_pos_eq[of "x + 1" k "x div k + 1" 0] int_mod_pos_eq[of "x + 1" k "x div k + 1" 0]
    by auto
  then show ?thesis by (simp add: mod_eq_0_iff_dvd)
next
  case False
  then have lt: "x mod k + 1 < k" using pos_mod_bound[OF assms, of x] by linarith
  have ge: "0 \<le> x mod k + 1" using pos_mod_sign[OF assms, of x] by linarith
  have "x + 1 = k * (x div k) + (x mod k + 1)"
    using mult_div_mod_eq[of k x] by simp
  then have "(x + 1) div k = x div k" and "(x + 1) mod k = x mod k + 1"
    using int_div_pos_eq[of "x + 1" k "x div k" "x mod k + 1"] int_mod_pos_eq[of "x + 1" k "x div k" "x mod k + 1"] lt ge
    by auto
  moreover have "x mod k + 1 \<noteq> 0" using pos_mod_sign[OF assms, of x] by linarith
  ultimately show ?thesis by (simp add: mod_eq_0_iff_dvd[symmetric])
qed

lemma dvd_shift_4: "(4::int) dvd (y - 1969 + 1) \<longleftrightarrow> 4 dvd y"
proof -
  have "(4::int) dvd 1968" by simp
  then show ?thesis using dvd_diff_left_iff[of 4 1968 y] by simp
qed

lemma dvd_shift_100: "(100::int) dvd (y - 1901 + 1) \<longleftrightarrow> 100 dvd y"
proof -
  have "(100::int) dvd 1900" by simp
  then show ?thesis using dvd_diff_left_iff[of 100 1900 y] by simp
qed

lemma dvd_shift_400: "(400::int) dvd (y - 1601 + 1) \<longleftrightarrow> 400 dvd y"
proof -
  have "(400::int) dvd 1600" by simp
  then show ?thesis using dvd_diff_left_iff[of 400 1600 y] by simp
qed

lemma dvd_400_100: "(400::int) dvd y \<Longrightarrow> 100 dvd y"
  by (rule dvd_trans[of 100 400 y]) simp_all

lemma dvd_100_4: "(100::int) dvd y \<Longrightarrow> 4 dvd y"
  by (rule dvd_trans[of 4 100 y]) simp_all


lemma leap_arith:
  fixes A B C y :: int
  assumes "r \<Longrightarrow> q" "q \<Longrightarrow> p"
  shows "365 * (y + 1 - 1970) + (A + (if p then 1 else 0)) - (B + (if q then 1 else 0))
           + (C + (if r then 1 else 0))
         = 365 * (y - 1970) + A - B + C + 365 + (if p \<and> (\<not> q \<or> r) then 1 else 0)"
  using assms by (cases p; cases q; cases r; simp)

lemma DayFromYear_Suc: "DayFromYear (y + 1) = DayFromYear y + 365 + InLeapYear y"
proof -
  have a: "(y + 1 - 1969) div 4 = (y - 1969) div 4 + (if 4 dvd y then 1 else 0)"
    using div_step[of 4 "y - 1969"] dvd_shift_4[of y] by (simp add: algebra_simps)
  have b: "(y + 1 - 1901) div 100 = (y - 1901) div 100 + (if 100 dvd y then 1 else 0)"
    using div_step[of 100 "y - 1901"] dvd_shift_100[of y] by (simp add: algebra_simps)
  have c: "(y + 1 - 1601) div 400 = (y - 1601) div 400 + (if 400 dvd y then 1 else 0)"
    using div_step[of 400 "y - 1601"] dvd_shift_400[of y] by (simp add: algebra_simps)
  show ?thesis
    unfolding DayFromYear_def InLeapYear_def a b c mod_eq_0_iff_dvd
    by (rule leap_arith) (rule dvd_400_100, assumption, rule dvd_100_4, assumption)
qed

lemma DayFromYear_lo: "146097 * y - 287811596 \<le> 400 * DayFromYear y"
proof -
  define a where "a = (y - 1969) div 4"
  define b where "b = (y - 1901) div 100"
  define c where "c = (y - 1601) div 400"
  have "y - 1969 < 4 * a + 4" "100 * b \<le> y - 1901" "y - 1601 < 400 * c + 400"
    unfolding a_def b_def c_def by (simp_all add: div_lo div_hi)
  moreover have "400 * DayFromYear y = 146000 * y - 287620000 + 400 * a - 400 * b + 400 * c"
    unfolding DayFromYear_def a_def b_def c_def by simp
  ultimately show ?thesis by linarith
qed

lemma DayFromYear_hi: "400 * DayFromYear y \<le> 146097 * y - 287810501"
proof -
  define a where "a = (y - 1969) div 4"
  define b where "b = (y - 1901) div 100"
  define c where "c = (y - 1601) div 400"
  have "4 * a \<le> y - 1969" "y - 1901 < 100 * b + 100" "400 * c \<le> y - 1601"
    unfolding a_def b_def c_def by (simp_all add: div_lo div_hi)
  moreover have "400 * DayFromYear y = 146000 * y - 287620000 + 400 * a - 400 * b + 400 * c"
    unfolding DayFromYear_def a_def b_def c_def by simp
  ultimately show ?thesis by linarith
qed

lemma YearFromDay_correct:
  "DayFromYear (YearFromDay d) \<le> d \<and> d < DayFromYear (YearFromDay d + 1)"
proof -
  define q where "q = (400 * d) div 146097"
  have e1: "146097 * q \<le> 400 * d"
    unfolding q_def by (simp add: div_lo)
  have e2: "400 * d < 146097 * q + 146097"
    unfolding q_def by (simp add: div_hi)
  have lo: "DayFromYear (1970 + q - 1) \<le> d"
    using DayFromYear_hi[of "1970 + q - 1"] e1 by simp
  have hi: "d < DayFromYear (1970 + q + 2)"
    using DayFromYear_lo[of "1970 + q + 2"] e2 by simp
  have s: "1970 + q + 1 + 1 = 1970 + q + 2" "1970 + q - 1 + 1 = 1970 + q" by simp_all
  show ?thesis
    using lo hi unfolding YearFromDay_def q_def[symmetric] Let_def
    by (simp add: s)
qed

lemma of_char_digit: "0 \<le> n \<Longrightarrow> n \<le> 9 \<Longrightarrow> (of_char (digit n) :: int) = 48 + n"
  by (simp add: digit_def)

lemma digit_val_digit: "0 \<le> n \<Longrightarrow> n \<le> 9 \<Longrightarrow> digit_val (digit n) = Some n"
  by (simp add: digit_val_def of_char_digit)

lemma digit_not_sign:
  assumes "0 \<le> n" "n \<le> 9"
  shows "digit n \<noteq> CHR ''+'' \<and> digit n \<noteq> CHR ''-''"
proof -
  have "(of_char (digit n) :: int) \<noteq> of_char (CHR ''+'')"
       "(of_char (digit n) :: int) \<noteq> of_char (CHR ''-'')"
    using assms by (simp_all add: of_char_digit)
  then show ?thesis by auto
qed

lemma number_from_snoc:
  "number_from a (xs @ [c]) =
     (case number_from a xs of None \<Rightarrow> None
      | Some v \<Rightarrow> (case digit_val c of None \<Rightarrow> None | Some d \<Rightarrow> Some (10 * v + d)))"
  by (induction xs arbitrary: a) (auto split: option.splits)

lemma number_from_digits:
  "0 \<le> n \<Longrightarrow> n < 10 ^ k \<Longrightarrow> number_from 0 (digits k n) = Some n"
proof (induction k arbitrary: n)
  case 0
  then show ?case by simp
next
  case (Suc k)
  have a: "0 \<le> n div 10" using Suc.prems(1) by (simp add: pos_imp_zdiv_nonneg_iff)
  have b: "n div 10 < 10 ^ k" using Suc.prems(2) div_lo[of 10 n] by simp
  have c: "0 \<le> n mod 10" "n mod 10 \<le> 9" by simp_all
  show ?case
    using Suc.IH[OF a b] digit_val_digit[OF c]
    by (simp add: number_from_snoc)
qed

lemma length_digits: "length (digits k n) = k"
  by (induction k arbitrary: n) simp_all

lemma eatDigits_digits:
  "0 \<le> n \<Longrightarrow> n < 10 ^ k \<Longrightarrow> eatDigits k (digits k n @ r) = Some (n, r)"
  by (simp add: eatDigits_def length_digits number_from_digits)

lemma eatChar_Cons: "eatChar c (c # r) = Some r"
  by (simp add: eatChar_def)

lemma digits_nonempty: "digits (Suc k) n = digit (n div 10 ^ k mod 10) # tl (digits (Suc k) n)"
proof (induction k arbitrary: n)
  case 0
  then show ?case by simp
next
  case (Suc k)
  have "digits (Suc (Suc k)) n = digits (Suc k) (n div 10) @ [digit (n mod 10)]" by simp
  also have "\<dots> = (digit (n div 10 div 10 ^ k mod 10) # tl (digits (Suc k) (n div 10))) @ [digit (n mod 10)]"
    using Suc.IH[of "n div 10"] by simp
  finally have e: "digits (Suc (Suc k)) n = digit (n div 10 div 10 ^ k mod 10) # (tl (digits (Suc k) (n div 10)) @ [digit (n mod 10)])"
    by simp
  have "n div 10 div 10 ^ k = n div 10 ^ Suc k"
    by (simp add: zdiv_zmult2_eq)
  with e show ?case by (metis list.sel(3))
qed

lemma eatYear_isoYear:
  assumes "- 1000000 < y" "y < 1000000"
  shows "eatYear (isoYear y @ r) = Some (y, r)"
proof -
  consider "0 \<le> y \<and> y \<le> 9999" | "9999 < y" | "y < 0" by linarith
  then show ?thesis
  proof cases
    case 1
    have d: "digits 4 y = digit (y div 10 ^ 3 mod 10) # tl (digits 4 y)"
      using digits_nonempty[of 3 y] by (simp add: numeral_eq_Suc)
    have e: "eatDigits 4 (digits 4 y @ r) = Some (y, r)"
      using 1 by (intro eatDigits_digits) simp_all
    have "eatYear (digits 4 y @ r) = eatDigits 4 (digits 4 y @ r)"
      by (subst d, subst (2) d) (simp add: eatYear_def digit_not_sign)
    then show ?thesis using 1 e by (simp add: isoYear_def)
  next
    case 2
    have e: "eatDigits 6 (digits 6 y @ r) = Some (y, r)"
      using 2 assms by (intro eatDigits_digits) simp_all
    show ?thesis using 2 e by (simp add: isoYear_def eatYear_def)
  next
    case 3
    have e: "eatDigits 6 (digits 6 (- y) @ r) = Some (- y, r)"
      using 3 assms by (intro eatDigits_digits) simp_all
    show ?thesis using 3 e by (simp add: isoYear_def eatYear_def)
  qed
qed

lemma time_of_day:
  fixes ms :: int
  assumes "0 \<le> ms" "ms < 86400000"
  shows "0 \<le> ms div 3600000 \<and> ms div 3600000 \<le> 23
       \<and> 0 \<le> ms div 60000 mod 60 \<and> ms div 60000 mod 60 \<le> 59
       \<and> 0 \<le> ms div 1000 mod 60 \<and> ms div 1000 mod 60 \<le> 59
       \<and> 0 \<le> ms mod 1000 \<and> ms mod 1000 \<le> 999
       \<and> ms div 3600000 * 3600000 + ms div 60000 mod 60 * 60000
           + ms div 1000 mod 60 * 1000 + ms mod 1000 = ms"
proof -
  define s where "s = ms div 1000"
  define mi where "mi = s div 60"
  define h where "h = mi div 60"
  have e1: "ms div 60000 = mi" unfolding mi_def s_def by (simp add: zdiv_zmult2_eq[symmetric])
  have e2: "ms div 3600000 = h" unfolding h_def mi_def s_def by (simp add: zdiv_zmult2_eq[symmetric])
  have c1: "1000 * s + ms mod 1000 = ms" unfolding s_def by simp
  have c2: "60 * mi + s mod 60 = s" unfolding mi_def by simp
  have c3: "60 * h + mi mod 60 = mi" unfolding h_def by simp
  have r1: "0 \<le> ms mod 1000" "ms mod 1000 < 1000" by simp_all
  have r2: "0 \<le> s mod 60" "s mod 60 < 60" by simp_all
  have r3: "0 \<le> mi mod 60" "mi mod 60 < 60" by simp_all
  have h0: "0 \<le> h" using assms c1 c2 c3 r1 r2 r3 by linarith
  have h1: "h \<le> 23" using assms c1 c2 c3 r1 r2 r3 by linarith
  have "h * 3600000 + mi mod 60 * 60000 + s mod 60 * 1000 + ms mod 1000 = ms"
    using c1 c2 c3 by linarith
  moreover have "mi mod 60 \<le> 59" using r3 by linarith
  moreover have "s mod 60 \<le> 59" using r2 by linarith
  moreover have "ms mod 1000 \<le> 999" using r1 by linarith
  ultimately show ?thesis
    unfolding e1 e2 s_def[symmetric] using h0 h1 r1(1) r2(1) r3(1) by blast
qed

lemma month_day:
  assumes "0 \<le> diy" "diy < 365 + L" "L = 0 \<or> L = 1"
  shows "0 \<le> MonthFromDay diy L \<and> MonthFromDay diy L \<le> 11
       \<and> 1 \<le> diy - monthStart (MonthFromDay diy L) L + 1
       \<and> diy - monthStart (MonthFromDay diy L) L + 1 \<le> daysInMonth (MonthFromDay diy L) L"
  using assms unfolding MonthFromDay_def monthStart_def daysInMonth_def
  by auto


lemma fromISOString_format:
  assumes "- 1000000 < y" "y < 1000000"
    and "0 \<le> m" "m < 100" and "0 \<le> d" "d < 100" and "0 \<le> h" "h < 100"
    and "0 \<le> mi" "mi < 100" and "0 \<le> s" "s < 100" and "0 \<le> f" "f < 1000"
  shows "fromISOString (isoYear y @ ''-'' @ digits 2 m @ ''-'' @ digits 2 d @ ''T''
            @ digits 2 h @ '':'' @ digits 2 mi @ '':'' @ digits 2 s @ ''.'' @ digits 3 f @ ''Z'')
         = makeTime y m d h mi s f"
  unfolding fromISOString_def
  by (simp add: eatYear_isoYear eatChar_Cons eatDigits_digits assms)

lemma InLeapYear_cases: "InLeapYear y = 0 \<or> InLeapYear y = 1"
  by (simp add: InLeapYear_def)

lemma day_bounds:
  assumes "validTime t"
  shows "- 100000000 \<le> t div msPerDay \<and> t div msPerDay \<le> 100000000"
proof -
  have "- 100000000 * msPerDay \<le> t" "t \<le> 100000000 * msPerDay"
    using assms by (simp_all add: validTime_def maxTime_def msPerDay_def)
  then show ?thesis
    using div_lo[of msPerDay t] div_hi[of msPerDay t]
    by (simp add: msPerDay_def)
qed

lemma year_bounds:
  assumes "- 100000000 \<le> d" "d \<le> 100000000"
  shows "- 1000000 < YearFromDay d \<and> YearFromDay d < 1000000"
proof -
  have a: "DayFromYear (YearFromDay d) \<le> d" and b: "d < DayFromYear (YearFromDay d + 1)"
    using YearFromDay_correct[of d] by simp_all
  have "146097 * YearFromDay d - 287811596 \<le> 400 * d"
    using DayFromYear_lo[of "YearFromDay d"] a by linarith
  then have hi: "YearFromDay d < 1000000" using assms by linarith
  have "400 * d < 146097 * (YearFromDay d + 1) - 287810501"
    using DayFromYear_hi[of "YearFromDay d + 1"] b by linarith
  then have "400 * d < 146097 * YearFromDay d + 146097 - 287810501" by (simp add: algebra_simps)
  then have lo: "- 1000000 < YearFromDay d" using assms by linarith
  show ?thesis using lo hi by simp
qed

lemma makeTime_ok:
  assumes "0 \<le> m" "m \<le> 11" "1 \<le> dd" "dd \<le> daysInMonth m (InLeapYear y)"
    and "h \<le> 23" "mi \<le> 59" "s \<le> 59"
    and "t = (DayFromYear y + monthStart m (InLeapYear y) + dd - 1) * msPerDay
              + h * 3600000 + mi * 60000 + s * 1000 + f"
    and "validTime t"
  shows "makeTime y (m + 1) dd h mi s f = Some t"
  using assms by (simp add: makeTime_def)

lemma isoText_unfold:
  assumes "day = t div msPerDay" and "ms = t mod msPerDay"
    and "y = YearFromDay day" and "L = InLeapYear y"
    and "diy = day - DayFromYear y" and "m = MonthFromDay diy L"
    and "dd = diy - monthStart m L + 1"
  shows "isoText t = isoYear y @ ''-'' @ digits 2 (m + 1) @ ''-'' @ digits 2 dd @ ''T''
                  @ digits 2 (ms div 3600000) @ '':'' @ digits 2 (ms div 60000 mod 60) @ '':''
                  @ digits 2 (ms div 1000 mod 60) @ ''.'' @ digits 3 (ms mod 1000) @ ''Z''"
  unfolding isoText_def Let_def assms by simp

lemma fromISOString_isoText:
  assumes "validTime t"
  shows "fromISOString (isoText t) = Some t"
proof -
  define day where "day = t div msPerDay"
  define ms where "ms = t mod msPerDay"
  define y where "y = YearFromDay day"
  define L where "L = InLeapYear y"
  define diy where "diy = day - DayFromYear y"
  define m where "m = MonthFromDay diy L"
  define dom where "dom = diy - monthStart m L + 1"
  define h where "h = ms div 3600000"
  define mi where "mi = ms div 60000 mod 60"
  define sec where "sec = ms div 1000 mod 60"
  define f where "f = ms mod 1000"
  have t_eq: "day * msPerDay + ms = t" unfolding day_def ms_def by simp
  have ms_range: "0 \<le> ms" "ms < 86400000" unfolding ms_def msPerDay_def by simp_all
  note tod = time_of_day[OF ms_range, folded h_def mi_def sec_def f_def]
  have yb: "- 1000000 < y" "y < 1000000"
    using year_bounds[of day] day_bounds[OF assms] unfolding y_def day_def by simp_all
  have diy_range: "0 \<le> diy" "diy < 365 + L"
    using YearFromDay_correct[of day] DayFromYear_Suc[of y] unfolding diy_def y_def L_def by simp_all
  have L01: "L = 0 \<or> L = 1" unfolding L_def by (rule InLeapYear_cases)
  note md = month_day[OF diy_range L01, folded m_def, folded dom_def]
  have dim: "daysInMonth m L \<le> 31" using L01 by (auto simp: daysInMonth_def)
  have str: "isoText t = isoYear y @ ''-'' @ digits 2 (m + 1) @ ''-'' @ digits 2 dom @ ''T''
                  @ digits 2 h @ '':'' @ digits 2 mi @ '':''
                  @ digits 2 sec @ ''.'' @ digits 3 f @ ''Z''"
    unfolding h_def mi_def sec_def f_def
    by (rule isoText_unfold[OF day_def ms_def y_def L_def diy_def m_def dom_def])
  have r: "0 \<le> m + 1" "m + 1 < 100" "0 \<le> dom" "dom < 100" "0 \<le> h" "h < 100"
      "0 \<le> mi" "mi < 100" "0 \<le> sec" "sec < 100" "0 \<le> f" "f < 1000"
    using md dim tod by linarith+
  have parse: "fromISOString (isoYear y @ ''-'' @ digits 2 (m + 1) @ ''-'' @ digits 2 dom @ ''T''
                  @ digits 2 h @ '':'' @ digits 2 mi @ '':''
                  @ digits 2 sec @ ''.'' @ digits 3 f @ ''Z'')
        = makeTime y (m + 1) dom h mi sec f"
    by (rule fromISOString_format[OF yb r])
  have day_eq: "DayFromYear y + monthStart m L + dom - 1 = day" unfolding dom_def diy_def by simp
  have sum: "t = (DayFromYear y + monthStart m (InLeapYear y) + dom - 1) * msPerDay
        + h * 3600000 + mi * 60000 + sec * 1000 + f"
    unfolding L_def[symmetric] day_eq using tod t_eq by linarith
  have c: "0 \<le> m" "m \<le> 11" "1 \<le> dom" "dom \<le> daysInMonth m (InLeapYear y)"
     "h \<le> 23" "mi \<le> 59" "sec \<le> 59"
    using md tod unfolding L_def by simp_all
  have "makeTime y (m + 1) dom h mi sec f = Some t"
    by (rule makeTime_ok[OF c sum assms])
  with str parse show ?thesis by simp
qed

lemma dayjs_isoText: "validTime t \<Longrightarrow> dayjs other (isoText t) = Some t"
  by (simp add: dayjs_def fromISOString_isoText)

subsection \<open>Strategy and assets\<close>

lemma keys_assign:
  "map fst (assign k v ps) = (if k \<in> set (map fst ps) then map fst ps else map fst ps @ [k])"
  by (induction ps) auto

lemma values_assign:
  "(x, y) \<in> set (assign k v ps) \<Longrightarrow> (x, y) \<in> set ps \<or> (x = k \<and> y = v)"
  by (induction ps) (auto split: if_splits)

lemma keyset_assign: "fst ` set (assign k v ps) = insert k (fst ` set ps)"
  using arg_cong[OF keys_assign[of k v ps], of set] by (auto split: if_splits)

lemma plan_keys:
  "fst ` set (foldl (\<lambda>plan ch. assign ch (base ch) plan) acc chs) = fst ` set acc \<union> set chs"
  by (induction chs arbitrary: acc) (simp_all add: keyset_assign)

lemma plan_distinct:
  "distinct (map fst acc) \<Longrightarrow> distinct (map fst (foldl (\<lambda>plan ch. assign ch (base ch) plan) acc chs))"
  by (induction chs arbitrary: acc) (auto simp: keys_assign)

lemma plan_values:
  "(k, v) \<in> set (foldl (\<lambda>plan ch. assign ch (base ch) plan) acc chs) \<Longrightarrow>
     (k, v) \<in> set acc \<or> (k \<in> set chs \<and> v = base k)"
proof (induction chs arbitrary: acc)
  case Nil
  then show ?case by simp
next
  case (Cons c chs)
  from Cons.IH[OF Cons.prems[simplified]] show ?case
    using values_assign[of k v c "base c" acc] by auto
qed

lemma base_six:
  "k \<in> six_channels \<Longrightarrow> \<exists>p. base k = Some p \<and> objective p \<noteq> [] \<and> strategy p \<noteq> [] \<and> kpis p \<noteq> []"
  by (auto simp: six_channels_def base_def)

text \<open>
  Claim C7. When the requested channels are among the six known tags, the keys of
  \<open>channelsPlan\<close> are exactly the requested channels, each key once, and every entry holds a
  plan with a non-empty objective, a non-empty strategy and a non-empty list of KPIs.
\<close>

theorem buildStrategy_channelsPlan:
  assumes "set (channels input) \<subseteq> six_channels"
  shows "set (map fst (channelsPlan (buildStrategy input))) = set (channels input)
   \<and> distinct (map fst (channelsPlan (buildStrategy input)))
   \<and> (\<forall>(k, v) \<in> set (channelsPlan (buildStrategy input)).
         \<exists>p. v = Some p \<and> objective p \<noteq> [] \<and> strategy p \<noteq> [] \<and> kpis p \<noteq> [])"
proof (intro conjI)
  show "set (map fst (channelsPlan (buildStrategy input))) = set (channels input)"
    by (simp add: buildStrategy_def plan_keys)
  show "distinct (map fst (channelsPlan (buildStrategy input)))"
    by (simp add: buildStrategy_def plan_distinct)
  show "\<forall>(k, v) \<in> set (channelsPlan (buildStrategy input)).
           \<exists>p. v = Some p \<and> objective p \<noteq> [] \<and> strategy p \<noteq> [] \<and> kpis p \<noteq> []"
  proof (clarify)
    fix k v
    assume "(k, v) \<in> set (channelsPlan (buildStrategy input))"
    then have "k \<in> set (channels input) \<and> v = base k"
      using plan_values[of k v "[]" "channels input"] by (simp add: buildStrategy_def)
    then show "\<exists>p. v = Some p \<and> objective p \<noteq> [] \<and> strategy p \<noteq> [] \<and> kpis p \<noteq> []"
      using assms base_six[of k] by auto
  qed
qed

theorem buildStrategy_channelsPlan_witness:
  "set (channels example_input) \<subseteq> six_channels
   \<and> set (map fst (channelsPlan (buildStrategy example_input))) = {''Website'', ''Email''}
   \<and> distinct (map fst (channelsPlan (buildStrategy example_input)))
   \<and> (\<exists>p. snd (channelsPlan (buildStrategy example_input) ! 1) = Some p
          \<and> objective p \<noteq> [] \<and> strategy p \<noteq> [] \<and> kpis p \<noteq> [])"
proof -
  have six: "set (channels example_input) \<subseteq> six_channels"
    by (simp add: example_input_def six_channels_def)
  have ch: "set (channels example_input) = {''Website'', ''Email''}"
    by (simp add: example_input_def)
  have mem: "channelsPlan (buildStrategy example_input) ! 1
               \<in> set (channelsPlan (buildStrategy example_input))"
    by (simp add: example_input_def buildStrategy_def)
  show ?thesis
    using buildStrategy_channelsPlan[OF six] six ch mem
    by (auto simp: case_prod_unfold)
qed

text \<open>
  Claim C8. \<open>buildAssets\<close> depends only on the product name, audience, goal and channels of
  the input and on the value propositions and primary message of the strategy: two calls
  that agree on these give the same assets.
\<close>

theorem buildAssets_depends_only_on:
  assumes "productName i1 = productName i2" and "audience i1 = audience i2"
    and "goal i1 = goal i2" and "channels i1 = channels i2"
    and "valueProps s1 = valueProps s2" and "primaryMessage s1 = primaryMessage s2"
  shows "buildAssets i1 s1 = buildAssets i2 s2"
  using assms by (simp add: buildAssets_def Let_def)

theorem buildAssets_depends_only_on_witness:
  "buildAssets example_input (buildStrategy example_input)
   = buildAssets (example_input\<lparr>productDescription := ''other'', tone := ''shy'', budget := 0,
                     startDate := 0, durationDays := 3, landingUrl := None\<rparr>)
       ((buildStrategy example_input)\<lparr>personaSummary := ''none'', channelsPlan := []\<rparr>)"
  by (rule buildAssets_depends_only_on) simp_all


subsection \<open>Calendar\<close>

lemma startOf_day_range:
  assumes "validTime t"
  shows "- maxTime \<le> startOf_day t \<and> startOf_day t \<le> t"
proof -
  have "startOf_day t = msPerDay * (t div msPerDay)"
    unfolding startOf_day_def using mult_div_mod_eq[of msPerDay t] by linarith
  moreover have "- 100000000 \<le> t div msPerDay" using day_bounds[OF assms] by simp
  moreover have "0 \<le> t mod msPerDay" by (simp add: msPerDay_def)
  ultimately show ?thesis by (simp add: startOf_day_def msPerDay_def maxTime_def)
qed

lemma add_day_valid:
  assumes "validTime t" "0 \<le> off" "off \<le> n" "add_day (startOf_day t) n \<le> maxTime"
  shows "validTime (add_day (startOf_day t) off)"
proof -
  have "off * msPerDay \<le> n * msPerDay" using assms(3) by (simp add: msPerDay_def)
  moreover have "0 \<le> off * msPerDay" using assms(2) by (simp add: msPerDay_def)
  ultimately show ?thesis
    using startOf_day_range[OF assms(1)] assms(4) by (simp add: add_day_def validTime_def)
qed

lemma diff_day_add_day: "diff_day (add_day s off) s = off"
proof -
  have "(- (off * msPerDay)) div msPerDay = - off"
    using nonzero_mult_div_cancel_right[of msPerDay "- off"] by (simp add: msPerDay_def)
  moreover have "(off * msPerDay) div msPerDay = off" by (simp add: msPerDay_def)
  moreover have "off * msPerDay < 0 \<longleftrightarrow> off < 0" by (simp add: msPerDay_def)
  ultimately show ?thesis by (simp add: diff_day_def add_day_def Let_def)
qed

lemma push_valid:
  "validTime (add_day start off) \<Longrightarrow>
   push URL input start off ch ti no =
     Inr \<lparr>date = isoText (add_day start off), channel = ch, title = ti,
          notes = fullNotes URL input ch ti no\<rparr>"
  by (simp add: push_def toISOString_def)

lemma spread_map:
  "spread URL input start d ps =
     map (\<lambda>(i, p). push URL input start (d + 2 * int i) (post_channel p) ''Social post'' (post_text p))
       (enumerate 0 ps)"
proof (induction ps arbitrary: d)
  case Nil
  then show ?case by simp
next
  case (Cons p ps)
  have "enumerate 0 (p # ps) = (0, p) # map (\<lambda>(i, q). (Suc i, q)) (enumerate 0 ps)"
    by (simp add: enumerate_Suc_eq apfst_def map_prod_def case_prod_unfold del: enumerate_simps) (simp add: enumerate_Suc_eq apfst_def map_prod_def case_prod_unfold)
  then show ?case using Cons.IH[of "d + 2"]
    by (simp add: case_prod_unfold comp_def algebra_simps)
qed

lemma inOrder_map_Inr:
  "(\<And>x. x \<in> set xs \<Longrightarrow> f x = Inr (g x)) \<Longrightarrow> inOrder (map f xs) = Inr (map g xs)"
  by (induction xs) simp_all

lemma scheduled_offsets:
  assumes "e \<in> set (scheduled input assets)"
  shows "0 \<le> fst e \<and> fst e \<le> 9 + 2 * int (length (social assets))"
proof -
  have "i < length (social assets)" if "(i, p) \<in> set (enumerate 0 (social assets))" for i p
    using that by (simp add: in_set_enumerate_eq)
  then show ?thesis
    using assms unfolding scheduled_def by (fastforce split: if_splits)
qed

lemma generated_scheduled:
  assumes "''Email'' \<in> set (channels input) \<Longrightarrow> 2 \<le> length (emails assets)"
  shows "[push URL input start 0 ''Website'' ''Hero + proof update'' ''Add headline and 3 logos'']
            @ spread URL input start 1 (social assets)
            @ (if ''Email'' \<in> set (channels input)
               then [emailPush URL input start 2 (emails assets) 0,
                     emailPush URL input start 9 (emails assets) 1]
               else [])
            @ (if ''Ads'' \<in> set (channels input)
               then [push URL input start 1 ''Ads'' ''Launch search + retargeting''
                       ''Focus on high-intent terms'']
               else [])
            @ [push URL input start 7 ''LinkedIn'' ''Carousel: what we learned''
                 ''Founder POV, 5 slides'']
         = map (\<lambda>(off, ch, ti, no). push URL input start off ch ti no) (scheduled input assets)"
proof (cases "''Email'' \<in> set (channels input)")
  case True
  then have "emails assets \<noteq> []" "Suc 0 < length (emails assets)" using assms by auto
  then show ?thesis
    using True by (simp add: scheduled_def spread_map emailPush_def case_prod_unfold comp_def)
next
  case False
  then show ?thesis
    by (simp add: scheduled_def spread_map emailPush_def case_prod_unfold comp_def)
qed

lemma withinDuration_eventAt:
  assumes "validTime (add_day (startOf_day (startDate input)) (fst e))"
  shows "withinDuration other (startOf_day (startDate input)) days (eventAt URL input e) = (fst e \<le> days)"
  using assms
  by (cases e) (simp add: withinDuration_def eventAt_def dayjs_isoText diff_day_add_day)

lemma buildCalendar_schedule:
  assumes "calendar_ok input assets"
  shows "buildCalendar URL other input strat assets =
           Inr (map (eventAt URL input)
                  (filter (\<lambda>e. fst e \<le> durationDays input) (scheduled input assets)))"
proof -
  define start where "start = startOf_day (startDate input)"
  have em: "''Email'' \<in> set (channels input) \<Longrightarrow> 2 \<le> length (emails assets)"
    using assms by (simp add: calendar_ok_def)
  have valid: "validTime (add_day start (fst e))" if "e \<in> set (scheduled input assets)" for e
    unfolding start_def
    using scheduled_offsets[OF that] assms
    by (intro add_day_valid[where n = "9 + 2 * int (length (social assets))"])
       (simp_all add: calendar_ok_def)
  have pushes: "(case e of (off, ch, ti, no) \<Rightarrow> push URL input start off ch ti no)
                  = Inr (eventAt URL input e)"
    if "e \<in> set (scheduled input assets)" for e
    using valid[OF that] by (cases e) (simp add: push_valid eventAt_def start_def)
  have gen: "inOrder (map (\<lambda>(off, ch, ti, no). push URL input start off ch ti no)
                 (scheduled input assets))
             = Inr (map (eventAt URL input) (scheduled input assets))"
    by (rule inOrder_map_Inr) (rule pushes)
  have flt: "filter (withinDuration other start (durationDays input))
               (map (eventAt URL input) (scheduled input assets))
             = map (eventAt URL input)
                 (filter (\<lambda>e. fst e \<le> durationDays input) (scheduled input assets))"
    unfolding filter_map comp_def
    by (rule arg_cong[where f = "map (eventAt URL input)"], rule filter_cong[OF refl])
       (use valid in \<open>simp add: withinDuration_eventAt start_def\<close>)
  have "buildCalendar URL other input strat assets =
          (case inOrder (map (\<lambda>(off, ch, ti, no). push URL input start off ch ti no)
                 (scheduled input assets))
           of Inl e \<Rightarrow> Inl e
            | Inr events \<Rightarrow> Inr (filter (withinDuration other start (durationDays input)) events))"
    unfolding start_def by (simp only: buildCalendar_def Let_def generated_scheduled[OF em])
  then show ?thesis
    unfolding gen using flt by simp
qed

lemma example_ok:
  "calendar_ok example_input (buildAssets example_input (buildStrategy example_input))"
  by code_simp

lemma example_calendar:
  "map (eventAt plain_URL example_input)
     (filter (\<lambda>e. fst e \<le> durationDays example_input)
        (scheduled example_input (buildAssets example_input (buildStrategy example_input))))
   = [\<lparr>date = ''2024-01-01T00:00:00.000Z'', channel = ''Website'',
        title = ''Hero + proof update'', notes = ''Add headline and 3 logos''\<rparr>,
      \<lparr>date = ''2024-01-03T00:00:00.000Z'', channel = ''Email'',
        title = ''Acme Analytics in 3 minutes: see what matters'',
        notes = ''A quick walkthrough and a real case study''\<rparr>,
      \<lparr>date = ''2024-01-10T00:00:00.000Z'', channel = ''Email'',
        title = ''How Acme Analytics users improved activation by 24%'',
        notes = ''A simple cohort insight changed their onboarding''\<rparr>,
      \<lparr>date = ''2024-01-08T00:00:00.000Z'', channel = ''LinkedIn'',
        title = ''Carousel: what we learned'', notes = ''Founder POV, 5 slides''\<rparr>]"
  by code_simp

lemma short_ok: "calendar_ok short_input (buildAssets short_input (buildStrategy short_input))"
  by code_simp

lemma short_calendar:
  "buildCalendar plain_URL none_other short_input (buildStrategy short_input)
      (buildAssets short_input (buildStrategy short_input))
   = Inr [\<lparr>date = ''2024-01-01T00:00:00.000Z'', channel = ''Website'',
            title = ''Hero + proof update'', notes = ''Add headline and 3 logos''\<rparr>,
          \<lparr>date = ''2024-01-08T00:00:00.000Z'', channel = ''LinkedIn'',
            title = ''Carousel: what we learned'', notes = ''Founder POV, 5 slides''\<rparr>]"
  by code_simp

text \<open>
  Claim C1. On an input that raises no error, \<open>buildCalendar\<close> returns the events of the
  schedule (Website at day 0; one social post per entry of \<open>assets.social\<close> at days 1, 3,
  5, ...; the two emails at days 2 and 9 when Email is requested; Ads at day 1 when Ads is
  requested; LinkedIn at day 7 in every case), keeping those whose offset is at most
  \<open>durationDays\<close>, in the order of generation.
\<close>

theorem buildCalendar_generation_order:
  assumes "calendar_ok input assets"
  shows "buildCalendar URL other input strat assets =
           Inr (map (eventAt URL input)
                  (filter (\<lambda>e. fst e \<le> durationDays input) (scheduled input assets)))"
  using assms by (rule buildCalendar_schedule)

theorem buildCalendar_generation_order_witness:
  "calendar_ok example_input (buildAssets example_input (buildStrategy example_input))
   \<and> buildCalendar plain_URL none_other example_input (buildStrategy example_input)
         (buildAssets example_input (buildStrategy example_input))
       = Inr [\<lparr>date = ''2024-01-01T00:00:00.000Z'', channel = ''Website'',
        title = ''Hero + proof update'', notes = ''Add headline and 3 logos''\<rparr>,
      \<lparr>date = ''2024-01-03T00:00:00.000Z'', channel = ''Email'',
        title = ''Acme Analytics in 3 minutes: see what matters'',
        notes = ''A quick walkthrough and a real case study''\<rparr>,
      \<lparr>date = ''2024-01-10T00:00:00.000Z'', channel = ''Email'',
        title = ''How Acme Analytics users improved activation by 24%'',
        notes = ''A simple cohort insight changed their onboarding''\<rparr>,
      \<lparr>date = ''2024-01-08T00:00:00.000Z'', channel = ''LinkedIn'',
        title = ''Carousel: what we learned'', notes = ''Founder POV, 5 slides''\<rparr>]"
  using buildCalendar_generation_order[OF example_ok, of plain_URL none_other "buildStrategy example_input"]
    example_ok example_calendar by simp




lemma inOrder_Inr_mem:
  "inOrder rs = Inr xs \<Longrightarrow> x \<in> set xs \<Longrightarrow> Inr x \<in> set rs"
  by (induction rs arbitrary: xs) (auto split: sum.splits)

lemma push_channel: "Inr ev = push URL input start off ch ti no \<Longrightarrow> channel ev = ch"
  by (auto simp: push_def split: option.splits)

lemma emailPush_channel: "Inr ev = emailPush URL input start off es i \<Longrightarrow> channel ev = ''Email''"
  by (auto simp: emailPush_def dest: push_channel split: if_splits)

lemma spread_channel:
  "Inr ev \<in> set (spread URL input start d ps) \<Longrightarrow> channel ev \<in> post_channel ` set ps"
  by (induction ps arbitrary: d) (auto dest: push_channel)

lemma social_buildAssets:
  "social (buildAssets input strat) =
     (if ''LinkedIn'' \<in> set (channels input)
      then [\<lparr>post_channel = ''LinkedIn'',
             post_text = ''Most analytics tools show everything. '' @ productName input
               @ '' shows what matters. '' @ at_str (valueProps strat) 3 @ ''. ''
               @ primaryMessage strat\<rparr>] else [])
     @ (if ''X/Twitter'' \<in> set (channels input)
      then [\<lparr>post_channel = ''X/Twitter'',
             post_text = ''Funnels, cohorts, activation. Keep it simple. '' @ productName input
               @ '' ? outcomes > dashboards. #saas #growth''\<rparr>] else [])
     @ (if ''Instagram'' \<in> set (channels input)
      then [\<lparr>post_channel = ''Instagram'',
             post_text = ''Before ? drowning in charts. After ? one insight, one action. ''
               @ productName input @ ''.''\<rparr>] else [])"
  by (simp add: buildAssets_def Let_def)

lemma buildAssets_social_channels:
  "p \<in> set (social (buildAssets input strat)) \<Longrightarrow> post_channel p \<in> set (channels input)"
  unfolding social_buildAssets by (auto split: if_splits)

lemma buildCalendar_channel_sources:
  assumes "buildCalendar URL other input strat assets = Inr evs" and "ev \<in> set evs"
  shows "channel ev = ''Website'' \<or> channel ev = ''LinkedIn''
         \<or> channel ev \<in> post_channel ` set (social assets)
         \<or> (channel ev = ''Email'' \<and> ''Email'' \<in> set (channels input))
         \<or> (channel ev = ''Ads'' \<and> ''Ads'' \<in> set (channels input))"
proof -
  define start where "start = startOf_day (startDate input)"
  define gen where "gen =
     [push URL input start 0 ''Website'' ''Hero + proof update'' ''Add headline and 3 logos'']
            @ spread URL input start 1 (social assets)
            @ (if ''Email'' \<in> set (channels input)
               then [emailPush URL input start 2 (emails assets) 0,
                     emailPush URL input start 9 (emails assets) 1]
               else [])
            @ (if ''Ads'' \<in> set (channels input)
               then [push URL input start 1 ''Ads'' ''Launch search + retargeting''
                       ''Focus on high-intent terms'']
               else [])
            @ [push URL input start 7 ''LinkedIn'' ''Carousel: what we learned''
                 ''Founder POV, 5 slides'']"
  have "buildCalendar URL other input strat assets =
          (case inOrder gen of Inl e \<Rightarrow> Inl e
           | Inr events \<Rightarrow> Inr (filter (withinDuration other start (durationDays input)) events))"
    unfolding gen_def start_def by (simp only: buildCalendar_def Let_def)
  then obtain events where ev1: "inOrder gen = Inr events"
      and ev2: "evs = filter (withinDuration other start (durationDays input)) events"
    using assms(1) by (auto split: sum.splits)
  have "ev \<in> set events" using assms(2) ev2 by simp
  then have "Inr ev \<in> set gen" using inOrder_Inr_mem[OF ev1] by simp
  then consider "Inr ev = push URL input start 0 ''Website'' ''Hero + proof update'' ''Add headline and 3 logos''"
    | "Inr ev \<in> set (spread URL input start 1 (social assets))"
    | "''Email'' \<in> set (channels input)" "Inr ev = emailPush URL input start 2 (emails assets) 0"
    | "''Email'' \<in> set (channels input)" "Inr ev = emailPush URL input start 9 (emails assets) 1"
    | "''Ads'' \<in> set (channels input)" "Inr ev = push URL input start 1 ''Ads'' ''Launch search + retargeting''
                       ''Focus on high-intent terms''"
    | "Inr ev = push URL input start 7 ''LinkedIn'' ''Carousel: what we learned''
                 ''Founder POV, 5 slides''"
    unfolding gen_def by (auto split: if_splits)
  then show ?thesis
  proof cases
    case 1 then show ?thesis using push_channel by blast
  next
    case 2 then show ?thesis using spread_channel by blast
  next
    case 3 then show ?thesis using emailPush_channel by blast
  next
    case 4 then show ?thesis using emailPush_channel by blast
  next
    case 5 then show ?thesis using push_channel by blast
  next
    case 6 then show ?thesis using push_channel by blast
  qed
qed

lemma kept_event:
  "e \<in> set S \<Longrightarrow> fst e \<le> days \<Longrightarrow>
   eventAt URL input e \<in> set (map (eventAt URL input) (filter (\<lambda>e. fst e \<le> days) S))"
  by simp

lemma channel_eventAt: "channel (eventAt URL input (off, ch, ti, no)) = ch"
  by (simp add: eventAt_def)

text \<open>
  Claim C10. With the assets that \<open>buildAssets\<close> derives from the same input, every event of
  the calendar has a channel that is requested in \<open>input.channels\<close> or is \<open>Website\<close> or
  \<open>LinkedIn\<close>; and a Website and a LinkedIn event are there whenever the campaign lasts seven
  days or more, whatever was requested.
\<close>

theorem buildCalendar_channels:
  "(\<forall>evs. buildCalendar URL other input strat (buildAssets input strat') = Inr evs \<longrightarrow>
       (\<forall>ev \<in> set evs. channel ev \<in> set (channels input) \<union> {''Website'', ''LinkedIn''}))
   \<and> (calendar_ok input (buildAssets input strat') \<and> 7 \<le> durationDays input \<longrightarrow>
       (\<exists>evs. buildCalendar URL other input strat (buildAssets input strat') = Inr evs
          \<and> ''Website'' \<in> channel ` set evs \<and> ''LinkedIn'' \<in> channel ` set evs))"
proof (intro conjI allI impI ballI)
  fix evs ev
  assume "buildCalendar URL other input strat (buildAssets input strat') = Inr evs" "ev \<in> set evs"
  from buildCalendar_channel_sources[OF this] buildAssets_social_channels[of _ input strat']
  show "channel ev \<in> set (channels input) \<union> {''Website'', ''LinkedIn''}"
    by auto
next
  assume a: "calendar_ok input (buildAssets input strat') \<and> 7 \<le> durationDays input"
  let ?S = "scheduled input (buildAssets input strat')"
  let ?evs = "map (eventAt URL input) (filter (\<lambda>e. fst e \<le> durationDays input) ?S)"
  let ?w = "(0::int, ''Website'', ''Hero + proof update'', ''Add headline and 3 logos'')"
  let ?l = "(7::int, ''LinkedIn'', ''Carousel: what we learned'', ''Founder POV, 5 slides'')"
  have bc: "buildCalendar URL other input strat (buildAssets input strat') = Inr ?evs"
    using a by (intro buildCalendar_schedule) simp
  have w: "?w \<in> set ?S" and l: "?l \<in> set ?S"
    by (simp_all add: scheduled_def)
  have "eventAt URL input ?w \<in> set ?evs"
    using a by (intro kept_event[OF w]) simp
  then have "channel (eventAt URL input ?w) \<in> channel ` set ?evs" by (rule imageI)
  then have 1: "''Website'' \<in> channel ` set ?evs" by (simp only: channel_eventAt)
  have "eventAt URL input ?l \<in> set ?evs"
    using a by (intro kept_event[OF l]) simp
  then have "channel (eventAt URL input ?l) \<in> channel ` set ?evs" by (rule imageI)
  then have 2: "''LinkedIn'' \<in> channel ` set ?evs" by (simp only: channel_eventAt)
  show "\<exists>evs. buildCalendar URL other input strat (buildAssets input strat') = Inr evs
          \<and> ''Website'' \<in> channel ` set evs \<and> ''LinkedIn'' \<in> channel ` set evs"
    using bc 1 2 by blast
qed

theorem buildCalendar_channels_witness:
  "buildCalendar plain_URL none_other short_input (buildStrategy short_input)
      (buildAssets short_input (buildStrategy short_input))
   = Inr [\<lparr>date = ''2024-01-01T00:00:00.000Z'', channel = ''Website'',
            title = ''Hero + proof update'', notes = ''Add headline and 3 logos''\<rparr>,
          \<lparr>date = ''2024-01-08T00:00:00.000Z'', channel = ''LinkedIn'',
            title = ''Carousel: what we learned'', notes = ''Founder POV, 5 slides''\<rparr>]
   \<and> channels short_input = []
   \<and> calendar_ok short_input (buildAssets short_input (buildStrategy short_input))
   \<and> 7 \<le> durationDays short_input
   \<and> (\<exists>evs. buildCalendar plain_URL none_other short_input (buildStrategy short_input)
                (buildAssets short_input (buildStrategy short_input)) = Inr evs
          \<and> (\<forall>ev \<in> set evs. channel ev \<in> set (channels short_input) \<union> {''Website'', ''LinkedIn''})
          \<and> ''Website'' \<in> channel ` set evs \<and> ''LinkedIn'' \<in> channel ` set evs)"
proof -
  have d: "7 \<le> durationDays short_input" "channels short_input = []"
    by (simp_all add: short_input_def example_input_def)
  show ?thesis
    using buildCalendar_channels[of plain_URL none_other short_input "buildStrategy short_input"
        "buildStrategy short_input"] short_ok short_calendar d
    by auto
qed

lemma fullNotes_utmUrl:
  "fullNotes URL input ch ti no =
     (if truthy (landingUrl input) \<and> ch \<noteq> ''Website''
      then no @ ''\<newline>Link: '' @ utmUrl URL (the (landingUrl input)) (goal input) ch ti
      else no)"
  by (simp add: fullNotes_def buildUtmUrl_def utmUrl_def truthy_def mediumOf_def Let_def
           split: option.splits)

lemma blank_ok: "calendar_ok linked_input blank_assets"
  by code_simp

text \<open>
  Claim C4 as stated fails where it says that \<^verbatim>\<open>utm_content\<close> is the slug of the title: a
  title without letters or digits has the empty slug, and then the parameter is not set
  at all. The last equation shows the link that setting it would have given.
\<close>

theorem utm_content_counterexample:
  "buildCalendar plain_URL none_other linked_input (buildStrategy linked_input) blank_assets =
     Inr [\<lparr>date = ''2024-01-01T00:00:00.000Z'', channel = ''Website'',
            title = ''Hero + proof update'', notes = ''Add headline and 3 logos''\<rparr>,
          \<lparr>date = ''2024-01-03T00:00:00.000Z'', channel = ''Email'', title = ''!!!'',
            notes = ''First\<newline>Link: https://acme.test/?utm_source=email&utm_medium=email&utm_campaign=increase-signups-by-30-in-30-days''\<rparr>,
          \<lparr>date = ''2024-01-10T00:00:00.000Z'', channel = ''Email'', title = ''???'',
            notes = ''Second\<newline>Link: https://acme.test/?utm_source=email&utm_medium=email&utm_campaign=increase-signups-by-30-in-30-days''\<rparr>,
          \<lparr>date = ''2024-01-08T00:00:00.000Z'', channel = ''LinkedIn'',
            title = ''Carousel: what we learned'',
            notes = ''Founder POV, 5 slides\<newline>Link: https://acme.test/?utm_source=linkedin&utm_medium=social&utm_campaign=increase-signups-by-30-in-30-days&utm_content=carousel-what-we-learned''\<rparr>]
   \<and> slugify ''!!!'' = []
   \<and> url_toString plain_URL
         (searchParams_set plain_URL
            (searchParams_set plain_URL
               (searchParams_set plain_URL
                  (searchParams_set plain_URL (the (new_URL plain_URL ''https://acme.test/''))
                     ''utm_source'' (toLowerCase ''Email''))
                  ''utm_medium'' ''email'')
               ''utm_campaign'' (slugify (goal linked_input)))
            ''utm_content'' (slugify ''!!!''))
       = ''https://acme.test/?utm_source=email&utm_medium=email&utm_campaign=increase-signups-by-30-in-30-days&utm_content=''"
  by code_simp

text \<open>
  Claim C4, amended. Every event of the calendar whose channel is not \<open>Website\<close> has, when
  \<open>landingUrl\<close> is a non-empty string, the line \<^verbatim>\<open>Link: \<close> and the link appended to its notes.
  The link is \<open>landingUrl\<close> with \<^verbatim>\<open>utm_source\<close> the channel in lower case, \<^verbatim>\<open>utm_medium\<close>
  \<^verbatim>\<open>email\<close>, \<^verbatim>\<open>cpc\<close> or \<^verbatim>\<open>social\<close>, \<^verbatim>\<open>utm_campaign\<close> the slug of the goal and, when the slug
  of the title is not empty, \<^verbatim>\<open>utm_content\<close> that slug. When \<open>landingUrl\<close> is not a valid URL the
  link is \<open>landingUrl\<close> itself; the events kept and their order do not depend on it.
\<close>

theorem buildCalendar_utm_links:
  "(calendar_ok input assets \<longrightarrow>
      buildCalendar URL other input strat assets =
        Inr (map (\<lambda>(off, ch, ti, no).
                    \<lparr>date = isoText (add_day (startOf_day (startDate input)) off),
                     channel = ch, title = ti,
                     notes = (if truthy (landingUrl input) \<and> ch \<noteq> ''Website''
                              then no @ ''\<newline>Link: ''
                                   @ utmUrl URL (the (landingUrl input)) (goal input) ch ti
                              else no)\<rparr>)
               (filter (\<lambda>e. fst e \<le> durationDays input) (scheduled input assets))))
   \<and> (new_URL URL baseUrl = None \<longrightarrow> buildUtmUrl URL baseUrl params = baseUrl)"
proof (intro conjI impI)
  assume ok: "calendar_ok input assets"
  have "eventAt URL input = (\<lambda>(off, ch, ti, no).
                    \<lparr>date = isoText (add_day (startOf_day (startDate input)) off),
                     channel = ch, title = ti,
                     notes = (if truthy (landingUrl input) \<and> ch \<noteq> ''Website''
                              then no @ ''\<newline>Link: ''
                                   @ utmUrl URL (the (landingUrl input)) (goal input) ch ti
                              else no)\<rparr>)"
    by (rule ext) (simp add: eventAt_def fullNotes_utmUrl split: prod.splits)
  then show "buildCalendar URL other input strat assets =
        Inr (map (\<lambda>(off, ch, ti, no).
                    \<lparr>date = isoText (add_day (startOf_day (startDate input)) off),
                     channel = ch, title = ti,
                     notes = (if truthy (landingUrl input) \<and> ch \<noteq> ''Website''
                              then no @ ''\<newline>Link: ''
                                   @ utmUrl URL (the (landingUrl input)) (goal input) ch ti
                              else no)\<rparr>)
               (filter (\<lambda>e. fst e \<le> durationDays input) (scheduled input assets)))"
    using buildCalendar_schedule[OF ok, of URL other strat] by simp
next
  assume "new_URL URL baseUrl = None"
  then show "buildUtmUrl URL baseUrl params = baseUrl"
    by (simp add: buildUtmUrl_def)
qed

theorem buildCalendar_utm_links_witness:
  "calendar_ok linked_input blank_assets
   \<and> buildCalendar plain_URL none_other linked_input (buildStrategy linked_input) blank_assets =
        Inr (map (\<lambda>(off, ch, ti, no).
                    \<lparr>date = isoText (add_day (startOf_day (startDate linked_input)) off),
                     channel = ch, title = ti,
                     notes = (if truthy (landingUrl linked_input) \<and> ch \<noteq> ''Website''
                              then no @ ''\<newline>Link: ''
                                   @ utmUrl plain_URL (the (landingUrl linked_input))
                                       (goal linked_input) ch ti
                              else no)\<rparr>)
               (filter (\<lambda>e. fst e \<le> durationDays linked_input)
                  (scheduled linked_input blank_assets)))
   \<and> new_URL plain_URL ''acme'' = None
   \<and> buildUtmUrl plain_URL ''acme''
         \<lparr>source = ''email'', medium = ''email'', campaign = ''c'', content = Some ''t''\<rparr> = ''acme''"
proof -
  have n: "new_URL plain_URL ''acme'' = None" by (simp add: plain_URL_def)
  show ?thesis
    using buildCalendar_utm_links[of linked_input blank_assets plain_URL none_other
        "buildStrategy linked_input" "''acme''"
        "\<lparr>source = ''email'', medium = ''email'', campaign = ''c'', content = Some ''t''\<rparr>"]
      blank_ok n
    by blast
qed

subsection \<open>Exports\<close>

lemma csvLines_map: "csvLines evs lines = lines @ map csvRow evs"
  by (induction evs arbitrary: lines) (simp_all add: csvRow_def)

lemma join_nonempty: "lines \<noteq> [] \<Longrightarrow> last lines \<noteq> [] \<Longrightarrow> join sep lines \<noteq> []"
  by (induction sep lines rule: join.induct) simp_all

lemma last_join:
  "lines \<noteq> [] \<Longrightarrow> last lines \<noteq> [] \<Longrightarrow> last (join sep lines) = last (last lines)"
proof (induction sep lines rule: join.induct)
  case (3 sep x y ys)
  then have "join sep (y # ys) \<noteq> []" by (intro join_nonempty) simp_all
  with 3 show ?case by simp
qed simp_all

lemma last_csvEscape:
  assumes "csvEscape v \<noteq> []"
  shows "last (csvEscape v) \<noteq> CHR ''\<newline>''"
proof (cases \<open>CHR ''"'' \<in> set v \<or> CHR '','' \<in> set v \<or> CHR ''\<newline>'' \<in> set v\<close>)
  case True
  then show ?thesis by (simp add: csvEscape_def)
next
  case False
  then have e: "csvEscape v = v" by (simp add: csvEscape_def)
  then have "last v \<in> set v" using assms by simp
  then show ?thesis using False e by auto
qed

lemma last_csvRow: "csvRow ev \<noteq> [] \<and> last (csvRow ev) \<noteq> CHR ''\<newline>''"
proof (cases "csvEscape (notes ev) = []")
  case True
  then show ?thesis by (simp add: csvRow_def)
next
  case False
  then show ?thesis using last_csvEscape[OF False] by (simp add: csvRow_def)
qed

lemma toCalendarCsv_lines:
  "toCalendarCsv events = join ''\<newline>'' (''date,channel,title,notes'' # map csvRow events)"
  by (simp add: toCalendarCsv_def csvLines_map)

text \<open>
  Claim C5. \<open>toCalendarCsv\<close> returns the header line and one row per event, in order, joined
  by single newlines; the text never ends in a newline. A field is wrapped in double quotes,
  with its double quotes doubled, exactly when it holds a comma, a double quote or a
  newline, and is written as it is otherwise.
\<close>

theorem toCalendarCsv_format:
  \<open>toCalendarCsv events = join ''\<newline>'' (''date,channel,title,notes'' # map csvRow events)
   \<and> csvRow ev = csvEscape (date ev) @ '','' @ csvEscape (channel ev) @ '',''
                  @ csvEscape (title ev) @ '','' @ csvEscape (notes ev)
   \<and> toCalendarCsv events \<noteq> [] \<and> last (toCalendarCsv events) \<noteq> CHR ''\<newline>''
   \<and> csvEscape v =
        (if CHR ''"'' \<in> set v \<or> CHR '','' \<in> set v \<or> CHR ''\<newline>'' \<in> set v
         then ''"'' @ concat (map (\<lambda>c. if c = CHR ''"'' then ''""'' else [c]) v) @ ''"''
         else v)
   \<and> csvEscape ''a, b'' = ''"a, b"''
   \<and> csvEscape ''He said "hi"'' = ''"He said ""hi"""''\<close>
proof -
  let ?lines = "''date,channel,title,notes'' # map csvRow events"
  have e: "toCalendarCsv events = join ''\<newline>'' ?lines"
    by (simp add: toCalendarCsv_def csvLines_map)
  have l: "last ?lines \<noteq> [] \<and> last (last ?lines) \<noteq> CHR ''\<newline>''"
    using last_csvRow by (cases events rule: rev_cases) simp_all
  have "join ''\<newline>'' ?lines \<noteq> []" using l by (intro join_nonempty) simp_all
  moreover have "last (join ''\<newline>'' ?lines) \<noteq> CHR ''\<newline>''"
    using l last_join[of ?lines "''\<newline>''"] by simp
  ultimately show ?thesis
    unfolding e by (simp add: csvRow_def csvEscape_def)
qed

text \<open>
  Claim C6, against the source. For the empty list \<open>buildIcs\<close> returns the three opening
  lines and the closing line, joined by single newlines. For every list with at least one
  event it returns no text: the first turn of the loop calls \<^verbatim>\<open>utc()\<close> on the object that
  \<^verbatim>\<open>dayjs(ev.date)\<close> returns, no file registers the plugin that brings this method, and the
  call raises \<^verbatim>\<open>TypeError\<close>. The claim says that a block of lines is written for each
  event.
\<close>

theorem buildIcs_raises:
  "buildIcs other [] =
     Inr ''BEGIN:VCALENDAR\<newline>VERSION:2.0\<newline>PRODID:-//Campaign Agent//EN\<newline>END:VCALENDAR''
   \<and> buildIcs other (ev # evs) = Inl TypeError
   \<and> buildIcs other
         [\<lparr>date = ''2024-01-01T00:00:00.000Z'', channel = ''Website'',
            title = ''Hero + proof update'', notes = ''Add headline and 3 logos''\<rparr>]
       = Inl TypeError"
  by (simp add: buildIcs_def utc_def)

subsection \<open>The example campaign, end to end\<close>

lemma example_events_any_URL:
  "map (eventAt URL example_input)
     (filter (\<lambda>e. fst e \<le> durationDays example_input)
        (scheduled example_input (buildAssets example_input (buildStrategy example_input))))
   = example_events"
  by code_simp

lemma splitLines_append_line:
  "CHR ''\<newline>'' \<notin> set l \<Longrightarrow> splitLines (l @ CHR ''\<newline>'' # r) = l # splitLines r"
  by (induction l) (auto split: list.splits)

lemma splitLines_line: "CHR ''\<newline>'' \<notin> set l \<Longrightarrow> splitLines l = [l]"
  by (induction l) (auto split: list.splits)

lemma splitLines_join:
  "lines \<noteq> [] \<Longrightarrow> list_all (\<lambda>l. CHR ''\<newline>'' \<notin> set l) lines \<Longrightarrow>
   splitLines (join ''\<newline>'' lines) = lines"
proof (induction "''\<newline>''" lines rule: join.induct)
  case (3 x y ys)
  then show ?case using splitLines_append_line[of x "join ''\<newline>'' (y # ys)"] by simp
qed (simp_all add: splitLines_line)

lemma example_csv_lines:
  "splitLines (toCalendarCsv example_events) =
     ''date,channel,title,notes'' # map csvRow example_events"
  unfolding toCalendarCsv_lines
  by (rule splitLines_join, simp) code_simp

text \<open>
  Claim C2, against the source. For the example campaign (Website and Email requested,
  start 2024-01-01, 14 days, empty landing URL): the channel plan has the keys Website and
  Email; the calendar has the four generated events, at day offsets 0 (Website), 2 and 9
  (Email) and 7 (LinkedIn), none filtered out; the CSV text has five lines. The iCalendar
  text is not produced: on these four events \<open>buildIcs\<close> raises \<^verbatim>\<open>TypeError\<close>, where the
  claim expects a text with four event blocks.
\<close>

theorem example_scenario:
  "map fst (channelsPlan (buildStrategy example_input)) = [''Website'', ''Email'']
   \<and> buildCalendar URL other example_input (buildStrategy example_input)
         (buildAssets example_input (buildStrategy example_input)) = Inr example_events
   \<and> length (scheduled example_input (buildAssets example_input (buildStrategy example_input))) = 4
   \<and> map (\<lambda>ev. (map_option (\<lambda>t. diff_day t (startOf_day (startDate example_input)))
                     (dayjs other (date ev)), channel ev)) example_events
       = [(Some 0, ''Website''), (Some 2, ''Email''), (Some 9, ''Email''), (Some 7, ''LinkedIn'')]
   \<and> length (splitLines (toCalendarCsv example_events)) = 5
   \<and> buildIcs other example_events = Inl TypeError"
proof -
  have 1: "map fst (channelsPlan (buildStrategy example_input)) = [''Website'', ''Email'']"
    by code_simp
  have 2: "buildCalendar URL other example_input (buildStrategy example_input)
         (buildAssets example_input (buildStrategy example_input)) = Inr example_events"
    using buildCalendar_schedule[OF example_ok, of URL other "buildStrategy example_input"]
    unfolding example_events_any_URL .
  have 3: "length (scheduled example_input (buildAssets example_input (buildStrategy example_input))) = 4"
    by code_simp
  have d: "map (\<lambda>ev. fromISOString (date ev)) example_events
             = [Some 1704067200000, Some 1704240000000, Some 1704844800000, Some 1704672000000]"
    by code_simp
  have o: "map (\<lambda>t. diff_day t (startOf_day (startDate example_input)))
             [1704067200000, 1704240000000, 1704844800000, 1704672000000] = [0, 2, 9, 7]"
    by code_simp
  have 4: "map (\<lambda>ev. (map_option (\<lambda>t. diff_day t (startOf_day (startDate example_input)))
                     (dayjs other (date ev)), channel ev)) example_events
       = [(Some 0, ''Website''), (Some 2, ''Email''), (Some 9, ''Email''), (Some 7, ''LinkedIn'')]"
    using d o by (simp add: example_events_def dayjs_def)
  have 5: "length (splitLines (toCalendarCsv example_events)) = 5"
    unfolding example_csv_lines by (simp add: example_events_def)
  have 6: "buildIcs other example_events = Inl TypeError"
    by (simp add: buildIcs_def example_events_def utc_def)
  show ?thesis using 1 2 3 4 5 6 by blast
qed

subsection \<open>Asset templates\<close>

text \<open>
  Claim C9, as far as the source bears it out. The ad copy reads
  \<open>valueProps\<close> at indices 2 and 3 and nowhere else; the body of the second email is a fixed
  text; the body of the first email lists every value proposition on a line of its own.
  The prefix of each line is a question mark and a space, as
  \<^verbatim>\<open>bullets\<close> writes it in \<^verbatim>\<open>src/lib/agent.ts\<close>, where the claim has a bullet character.
\<close>

theorem buildAssets_templates:
  \<open>adCopy (buildAssets input strat) =
     [productName input @ '' helps '' @ toLowerCase (audience input) @ '' ''
        @ toLowerCase (goal input) @ ''. '' @ at_str (valueProps strat) 2 @ ''. Start in minutes.'',
      ''Stop drowning in dashboards. '' @ productName input
        @ '' surfaces what moves the needle. '' @ at_str (valueProps strat) 3 @ ''.'']
   \<and> body (emails (buildAssets input strat) ! 0) =
       ''Hi there,\<newline>\<newline>If analytics feels noisy, you're not alone. '' @ productName input
         @ '' focuses on outcomes.\<newline>\<newline>Why teams switch:\<newline>''
         @ join ''\<newline>'' (map (\<lambda>s. ''? '' @ s) (valueProps strat))
         @ ''\<newline>\<newline>Want a 3-minute walkthrough? Reply with "demo" and I?ll share a short video.\<newline>\<newline>Best,\<newline>''
         @ productName input @ '' Team''
   \<and> body (emails (buildAssets input strat) ! 1) = email2_body
   \<and> bullets (valueProps (buildStrategy input)) =
       ''? Set up in minutes, not weeks\<newline>? Privacy-first by design\<newline>? Crystal-clear funnels and cohort analysis\<newline>? Actionable AI insights, not vanity metrics''\<close>
  by (simp add: buildAssets_def Let_def bullets_def buildStrategy_def the_valueProps_def)

subsection \<open>Further properties\<close>

text \<open>
  Property X1. The social posts of \<open>buildAssets\<close> are those of the requested channels among
  LinkedIn, X/Twitter and Instagram, one each, in that order.
\<close>

theorem buildAssets_social_order:
  "map post_channel (social (buildAssets input strat))
     = filter (\<lambda>c. c \<in> set (channels input)) [''LinkedIn'', ''X/Twitter'', ''Instagram'']"
  by (simp add: social_buildAssets)

lemma isSlugChar_dash: "\<not> isSlugChar (CHR ''-'')"
  by (simp add: isSlugChar_def)

lemma dashRuns_chars: "c \<in> set (dashRuns r s) \<Longrightarrow> isSlugChar c \<or> c = CHR ''-''"
  by (induction r s rule: dashRuns.induct) (auto split: if_splits)

lemma dashRuns_True_hd: "dashRuns True s \<noteq> [] \<Longrightarrow> isSlugChar (hd (dashRuns True s))"
  by (induction s) (auto split: if_splits)

lemma stripDashes_subset: "set (stripDashes s) \<subseteq> set s"
  by (cases s) (auto simp: stripDashes_def Let_def dest: in_set_butlastD split: if_splits)

lemma stripDashes_dashRuns_hd:
  assumes "stripDashes (dashRuns False s) \<noteq> []"
  shows "isSlugChar (hd (stripDashes (dashRuns False s)))"
proof (cases s)
  case Nil
  then show ?thesis using assms by (simp add: stripDashes_def)
next
  case (Cons c cs)
  show ?thesis
  proof (cases "isSlugChar c")
    case True
    then have e: "dashRuns False s = c # dashRuns False cs" using Cons by simp
    have "c \<noteq> CHR ''-''" using True isSlugChar_dash by auto
    then have "hd (stripDashes (dashRuns False s)) = c"
      using assms unfolding e stripDashes_def Let_def
      by (cases "dashRuns False cs") (auto split: if_splits)
    then show ?thesis using True by simp
  next
    case False
    then have e: "dashRuns False s = CHR ''-'' # dashRuns True cs" using Cons by simp
    let ?t = "dashRuns True cs"
    have ne: "?t \<noteq> []" using assms unfolding e stripDashes_def Let_def by (auto split: if_splits)
    have h: "isSlugChar (hd ?t)" using dashRuns_True_hd[OF ne] .
    have "hd (stripDashes (dashRuns False s)) = hd ?t"
      using assms ne unfolding e stripDashes_def Let_def
      by (cases ?t) (auto split: if_splits)
    then show ?thesis using h by simp
  qed
qed

text \<open>
  Property X2. A slug has at most 60 characters, each a lower-case letter, a digit or a
  hyphen, and it does not start with a hyphen.
\<close>

theorem slugify_shape:
  "length (slugify s) \<le> 60
   \<and> (\<forall>c \<in> set (slugify s). isSlugChar c \<or> c = CHR ''-'')
   \<and> (slugify s \<noteq> [] \<longrightarrow> isSlugChar (hd (slugify s)))"
proof (intro conjI ballI impI)
  show "length (slugify s) \<le> 60" by (simp add: slugify_def)
next
  fix c assume "c \<in> set (slugify s)"
  then have "c \<in> set (stripDashes (dashRuns False (toLowerCase s)))"
    unfolding slugify_def by (rule in_set_takeD)
  then have "c \<in> set (dashRuns False (toLowerCase s))" using stripDashes_subset by blast
  then show "isSlugChar c \<or> c = CHR ''-''" by (rule dashRuns_chars)
next
  assume "slugify s \<noteq> []"
  then have ne: "stripDashes (dashRuns False (toLowerCase s)) \<noteq> []"
    by (auto simp: slugify_def)
  then have "hd (slugify s) = hd (stripDashes (dashRuns False (toLowerCase s)))"
    by (simp add: slugify_def hd_take)
  then show "isSlugChar (hd (slugify s))"
    using stripDashes_dashRuns_hd[OF ne] by simp
qed

theorem slugify_shape_witness:
  "slugify ''  Hello,   World!! --x  '' = ''hello-world-x''
   \<and> length (slugify ''  Hello,   World!! --x  '') \<le> 60
   \<and> isSlugChar (hd (slugify ''  Hello,   World!! --x  ''))
   \<and> (isSlugChar (CHR ''-'') \<or> CHR ''-'' = CHR ''-'')"
proof -
  have e: "slugify ''  Hello,   World!! --x  '' = ''hello-world-x''" by code_simp
  then have ne: "slugify ''  Hello,   World!! --x  '' \<noteq> []" by simp
  have m: "CHR ''-'' \<in> set (slugify ''  Hello,   World!! --x  '')" unfolding e by simp
  show ?thesis
    using slugify_shape[of "''  Hello,   World!! --x  ''"] e ne m by blast
qed

end
